theory Spec2Isabelle
  imports Main
begin

section \<open>JavaScript strings and small helpers\<close>

text \<open>
  Strings are lists of characters. The characters of the model are the code units below
  256, so the white space that \<open>String.prototype.trim\<close> strips is TAB, LF, VT, FF, CR,
  SPACE and NBSP, and the line terminators that \<open>.\<close> of a regular expression refuses
  are LF and CR.
\<close>

definition is_space :: "char \<Rightarrow> bool" where
  "is_space c = (c \<in> set [CHR 0x09, CHR 0x0A, CHR 0x0B, CHR 0x0C, CHR 0x0D, CHR '' '', CHR 0xA0])"

definition is_line_terminator :: "char \<Rightarrow> bool" where
  "is_line_terminator c = (c = CHR 0x0A \<or> c = CHR 0x0D)"

definition is_digit :: "char \<Rightarrow> bool" where
  "is_digit c = (c \<in> set ''0123456789'')"

text \<open>\<open>s.trim()\<close>\<close>

definition trim :: "string \<Rightarrow> string" where
  "trim s = rev (dropWhile is_space (rev (dropWhile is_space s)))"

text \<open>\<open>s.split(c)\<close> for a one-character separator: the empty string gives one empty piece.\<close>

fun split_on :: "char \<Rightarrow> string \<Rightarrow> string list" where
  "split_on c [] = [[]]"
| "split_on c (x # xs) =
     (if x = c then [] # split_on c xs
      else (case split_on c xs of [] \<Rightarrow> [[x]] | h # t \<Rightarrow> (x # h) # t))"

text \<open>\<open>xs.join(sep)\<close>\<close>

fun join :: "string \<Rightarrow> string list \<Rightarrow> string" where
  "join sep [] = []"
| "join sep [x] = x"
| "join sep (x # y # ys) = x @ sep @ join sep (y # ys)"

text \<open>\<open>s.startsWith(p)\<close>\<close>

definition startsWith :: "string \<Rightarrow> string \<Rightarrow> bool" where
  "startsWith s p = (take (length p) s = p)"

text \<open>Decimal rendering of a non-negative integer, as a template literal renders it.\<close>

definition digit_char :: "nat \<Rightarrow> char" where
  "digit_char d = ''0123456789'' ! d"

fun string_of_nat :: "nat \<Rightarrow> string" where
  "string_of_nat n =
     (if n < 10 then [digit_char n] else string_of_nat (n div 10) @ [digit_char (n mod 10)])"

declare string_of_nat.simps [simp del]

text \<open>\<open>a ?? b\<close>: the left operand unless it is null or undefined.\<close>

definition nullish :: "'a option \<Rightarrow> 'a option \<Rightarrow> 'a option" where
  "nullish a b = (case a of Some x \<Rightarrow> Some x | None \<Rightarrow> b)"

text \<open>
  Truthiness of an optional string: present and not empty. \<open>if_truthy v\<close> is the string of
  a truthy \<open>v\<close>.
\<close>

definition if_truthy :: "string option \<Rightarrow> string option" where
  "if_truthy v = (case v of Some (c # cs) \<Rightarrow> Some (c # cs) | _ \<Rightarrow> None)"

definition truthy :: "string option \<Rightarrow> bool" where
  "truthy v = (if_truthy v \<noteq> None)"

section \<open>bulkDuplicateProducts: identifier normalisation\<close>

text \<open>
  \<open>id.replace(/^.*\/(\d+)$/, "$1")\<close>. The pattern matches the whole string or nothing:
  digits hold no slash, so the slash of the pattern is the last slash of the string, the
  part behind it must be one or more digits, and the part before it must be free of line
  terminators (there is no \<open>s\<close> flag). A match is replaced by its digits.
\<close>

definition after_last_slash :: "string \<Rightarrow> string" where
  "after_last_slash s = rev (takeWhile (\<lambda>c. c \<noteq> CHR ''/'') (rev s))"

definition upto_last_slash :: "string \<Rightarrow> string" where
  "upto_last_slash s = rev (dropWhile (\<lambda>c. c \<noteq> CHR ''/'') (rev s))"

definition replace_trailing_digits :: "string \<Rightarrow> string" where
  "replace_trailing_digits s =
     (let d = after_last_slash s; pre = upto_last_slash s
      in if pre \<noteq> [] \<and> d \<noteq> [] \<and> list_all is_digit d
            \<and> \<not> list_ex is_line_terminator (butlast pre)
         then d else s)"

definition normalizeGid :: "string \<Rightarrow> string" where
  "normalizeGid ident =
     (if startsWith ident ''gid://'' then ident
      else ''gid://shopify/Product/'' @ replace_trailing_digits ident)"

text \<open>\<open>/^gid:\/\/shopify\/Product\/.+/.test(s)\<close>\<close>

definition is_product_gid :: "string \<Rightarrow> bool" where
  "is_product_gid s =
     (startsWith s ''gid://shopify/Product/'' \<and>
      (case drop (length ''gid://shopify/Product/'') s of
         [] \<Rightarrow> False | c # cs \<Rightarrow> \<not> is_line_terminator c))"

section \<open>bulkDuplicateProducts: data model\<close>

text \<open>The action's parameters. Every field of a \<open>DuplicateInput\<close> is optional.\<close>

datatype tags_value = TagArray "string list" | TagString string

record duplicate_input =
  title :: "string option"
  imageUrls :: "string list option"
  descriptionHtml :: "string option"
  vendor :: "string option"
  tags :: "tags_value option"
  productType :: "string option"
  price :: "string option"

record params =
  sourceProductId :: "string option"
  duplicates :: "duplicate_input list option"

text \<open>
  The product that \<open>PRODUCT_BASE_QUERY\<close> returns. A field is optional where the code
  guards its read with \<open>??\<close> or \<open>?.\<close>; \<open>base_variants\<close> and \<open>base_media\<close> stand for
  \<open>variants?.nodes\<close> and \<open>media?.nodes\<close>.
\<close>

record base_option =
  opt_name :: string
  opt_optionValues :: "string list option"

record selected_option =
  so_name :: string
  so_value :: string

record base_variant =
  bv_price :: "string option"
  bv_selectedOptions :: "selected_option list option"

record media_node =
  mediaContentType :: "string option"
  image_url :: "string option"
  preview_image_url :: "string option"

record base_product =
  base_id :: string
  base_title :: string
  base_descriptionHtml :: "string option"
  base_vendor :: "string option"
  base_productType :: "string option"
  base_tags :: "string list option"
  base_options :: "base_option list option"
  base_variants :: "base_variant list option"
  base_media :: "media_node list option"

text \<open>The variables of the three mutations.\<close>

record product_option_input =
  poi_name :: string
  poi_values :: "string list"

record product_input =
  pi_title :: string
  pi_descriptionHtml :: "string option"
  pi_vendor :: "string option"
  pi_productType :: "string option"
  pi_tags :: "string list"
  pi_productOptions :: "product_option_input list"

record media_input =
  originalSource :: string
  mi_mediaContentType :: string

record option_value_input =
  ovi_name :: string
  ovi_optionId :: "string option"

record variant_input =
  vi_price :: "string option"
  vi_optionValues :: "option_value_input list"

record variant_update =
  vu_id :: string
  vu_price :: string

record staged_upload_input =
  sui_filename :: string
  sui_mimeType :: string
  sui_httpMethod :: string
  sui_resource :: string
  sui_fileSize :: "string option"

datatype request =
  BaseProduct string
| CreateProduct product_input "media_input list option"
| CreateVariants string "variant_input list" string
| UpdateVariants string "variant_update list"
| StagedUploads "staged_upload_input list"

text \<open>
  The responses. A mutation's answer is read in three places: \<open>json?.<mutation>\<close>,
  \<open>json?.errors\<close> and \<open>json?.data?.<mutation>\<close>; \<open>mj_data\<close> stands for the last. A
  \<open>null\<close> answer reads like one whose three fields are all absent.
\<close>

record user_error =
  message :: string

record 'p mutation_json =
  mj_payload :: "'p option"
  mj_errors :: "user_error list option"
  mj_data :: "'p option"

record created_option =
  co_id :: string
  co_name :: string

record created_product =
  cp_id :: "string option"
  cp_options :: "created_option list option"
  cp_variant_ids :: "string option list option"

record create_payload =
  cpl_product :: "created_product option"
  cpl_userErrors :: "user_error list option"

record variants_create_payload =
  vcp_productVariants :: "string option list option"
  vcp_userErrors :: "user_error list option"

record variants_update_payload =
  vup_userErrors :: "user_error list option"

record staged_target =
  url :: string
  resourceUrl :: string
  parameters :: "(string \<times> string) list"

record staged_payload =
  sp_stagedTargets :: "staged_target list option"
  sp_userErrors :: "user_error list option"

record base_json =
  bj_product :: "base_product option"
  bj_data_product :: "base_product option"

datatype response =
  BaseJson base_json
| CreateJson "create_payload mutation_json"
| VariantsCreateJson "variants_create_payload mutation_json"
| VariantsUpdateJson "variants_update_payload mutation_json"
| StagedJson "staged_payload mutation_json"

datatype error = Error string

text \<open>
  \<open>shopify.graphql\<close> is a remote service: it answers a request from its own state, which
  the answer may change, and a call may also throw. A run is observed through the events
  it leaves: the remote calls, each with its answer, the calls of \<open>logger.error\<close>, and
  on the client the uploads it starts with \<open>fetch\<close> (URL, form fields, file name).
\<close>

type_synonym 's graphql = "request \<Rightarrow> 's \<Rightarrow> (error + response) \<times> 's"

datatype event =
  Call request "error + response"
| LoggerError string
| Fetch string "(string \<times> string) list" string

text \<open>Reading an answer as the answer of one mutation: the fields of another are absent.\<close>

definition no_json :: "'p mutation_json" where
  "no_json = \<lparr>mj_payload = None, mj_errors = None, mj_data = None\<rparr>"

definition as_base :: "response \<Rightarrow> base_json" where
  "as_base r = (case r of BaseJson j \<Rightarrow> j | _ \<Rightarrow> \<lparr>bj_product = None, bj_data_product = None\<rparr>)"

definition as_create :: "response \<Rightarrow> create_payload mutation_json" where
  "as_create r = (case r of CreateJson j \<Rightarrow> j | BaseJson _ \<Rightarrow> no_json
     | VariantsCreateJson j \<Rightarrow> no_json\<lparr>mj_errors := mj_errors j\<rparr>
     | VariantsUpdateJson j \<Rightarrow> no_json\<lparr>mj_errors := mj_errors j\<rparr>
     | StagedJson j \<Rightarrow> no_json\<lparr>mj_errors := mj_errors j\<rparr>)"

definition as_variants_create :: "response \<Rightarrow> variants_create_payload mutation_json" where
  "as_variants_create r = (case r of VariantsCreateJson j \<Rightarrow> j | BaseJson _ \<Rightarrow> no_json
     | CreateJson j \<Rightarrow> no_json\<lparr>mj_errors := mj_errors j\<rparr>
     | VariantsUpdateJson j \<Rightarrow> no_json\<lparr>mj_errors := mj_errors j\<rparr>
     | StagedJson j \<Rightarrow> no_json\<lparr>mj_errors := mj_errors j\<rparr>)"

definition as_variants_update :: "response \<Rightarrow> variants_update_payload mutation_json" where
  "as_variants_update r = (case r of VariantsUpdateJson j \<Rightarrow> j | BaseJson _ \<Rightarrow> no_json
     | CreateJson j \<Rightarrow> no_json\<lparr>mj_errors := mj_errors j\<rparr>
     | VariantsCreateJson j \<Rightarrow> no_json\<lparr>mj_errors := mj_errors j\<rparr>
     | StagedJson j \<Rightarrow> no_json\<lparr>mj_errors := mj_errors j\<rparr>)"

definition as_staged :: "response \<Rightarrow> staged_payload mutation_json" where
  "as_staged r = (case r of StagedJson j \<Rightarrow> j | BaseJson _ \<Rightarrow> no_json
     | CreateJson j \<Rightarrow> no_json\<lparr>mj_errors := mj_errors j\<rparr>
     | VariantsCreateJson j \<Rightarrow> no_json\<lparr>mj_errors := mj_errors j\<rparr>
     | VariantsUpdateJson j \<Rightarrow> no_json\<lparr>mj_errors := mj_errors j\<rparr>)"

text \<open>
  \<open>json?.m?.userErrors ?? json?.errors ?? json?.data?.m?.userErrors\<close>, with \<open>ue\<close> the
  payload's \<open>userErrors\<close> field.
\<close>

definition userErrors_of ::
  "('p \<Rightarrow> user_error list option) \<Rightarrow> 'p mutation_json \<Rightarrow> user_error list option" where
  "userErrors_of ue j =
     nullish (nullish (Option.bind (mj_payload j) ue) (mj_errors j))
             (Option.bind (mj_data j) ue)"

text \<open>\<open>errs && errs.length\<close>\<close>

definition has_errors :: "user_error list option \<Rightarrow> bool" where
  "has_errors errs = (case errs of Some (e # es) \<Rightarrow> True | _ \<Rightarrow> False)"

text \<open>\<open>errs.map((e) => e.message).join("; ")\<close>\<close>

definition error_messages :: "user_error list option \<Rightarrow> string" where
  "error_messages errs = join ''; '' (map message (case errs of Some es \<Rightarrow> es | None \<Rightarrow> []))"

section \<open>bulkDuplicateProducts: the run\<close>

text \<open>
  A step of the run gives its result (\<open>Inl\<close> for a thrown error), the remote's new state
  and the events it added. \<open>then_do\<close> sequences two steps: a thrown error ends the run.
\<close>

type_synonym ('s, 'a) step = "(error + 'a) \<times> 's \<times> event list"

definition call :: "'s graphql \<Rightarrow> request \<Rightarrow> 's \<Rightarrow> ('s, response) step" where
  "call g req s = (case g req s of (r, s') \<Rightarrow> (r, s', [Call req r]))"

definition then_do :: "('s, 'a) step \<Rightarrow> ('a \<Rightarrow> 's \<Rightarrow> ('s, 'b) step) \<Rightarrow> ('s, 'b) step" where
  "then_do m f =
     (case m of
        (Inl e, s, evs) \<Rightarrow> (Inl e, s, evs)
      | (Inr a, s, evs) \<Rightarrow> (case f a s of (r, s', evs') \<Rightarrow> (r, s', evs @ evs')))"

text \<open>Lines 140-146: the image URLs of the source product, pushed in media order.\<close>

definition or_else :: "string option \<Rightarrow> string option \<Rightarrow> string option" where
  "or_else a b = (if truthy a then a else b)"

fun collect_image_urls :: "media_node list \<Rightarrow> string list \<Rightarrow> string list" where
  "collect_image_urls [] acc = acc"
| "collect_image_urls (node # nodes) acc =
     collect_image_urls nodes
       (if mediaContentType node = Some ''IMAGE''
        then (case if_truthy (or_else (image_url node) (preview_image_url node)) of
                Some u \<Rightarrow> acc @ [u]
              | None \<Rightarrow> acc)
        else acc)"

definition baseImageUrls :: "base_product \<Rightarrow> string list" where
  "baseImageUrls base =
     collect_image_urls (case base_media base of Some nodes \<Rightarrow> nodes | None \<Rightarrow> []) []"

text \<open>Line 155 and lines 190-198: the media sent with a duplicate's creation.\<close>

definition mediaUrls :: "base_product \<Rightarrow> duplicate_input \<Rightarrow> string list" where
  "mediaUrls base dup =
     (case imageUrls dup of Some (u # us) \<Rightarrow> u # us | _ \<Rightarrow> baseImageUrls base)"

definition mediaInput :: "base_product \<Rightarrow> duplicate_input \<Rightarrow> media_input list" where
  "mediaInput base dup =
     map (\<lambda>u. \<lparr>originalSource = u, mi_mediaContentType = ''IMAGE''\<rparr>)
         (take 50 (mediaUrls base dup))"

definition media_argument :: "base_product \<Rightarrow> duplicate_input \<Rightarrow> media_input list option" where
  "media_argument base dup =
     (if mediaInput base dup = [] then None else Some (mediaInput base dup))"

text \<open>Lines 159-175: the product input, the source's fields with the overrides applied.\<close>

definition productInput :: "base_product \<Rightarrow> duplicate_input \<Rightarrow> product_input" where
  "productInput base dup =
     \<lparr>pi_title =
        (case title dup of
           Some t \<Rightarrow> if t \<noteq> [] \<and> 0 < length (trim t) then trim t else base_title base
         | None \<Rightarrow> base_title base),
      pi_descriptionHtml = nullish (descriptionHtml dup) (base_descriptionHtml base),
      pi_vendor = nullish (vendor dup) (base_vendor base),
      pi_productType = nullish (productType dup) (base_productType base),
      pi_tags =
        (case tags dup of
           Some (TagArray ts) \<Rightarrow> ts
         | Some (TagString str) \<Rightarrow> filter (\<lambda>t. t \<noteq> []) (map trim (split_on CHR '','' str))
         | None \<Rightarrow> (case base_tags base of Some ts \<Rightarrow> ts | None \<Rightarrow> [])),
      pi_productOptions =
        map (\<lambda>opt. \<lparr>poi_name = opt_name opt,
                    poi_values = (case opt_optionValues opt of Some vs \<Rightarrow> vs | None \<Rightarrow> [])\<rparr>)
            (case base_options base of Some os \<Rightarrow> os | None \<Rightarrow> [])\<rparr>"

text \<open>Lines 215-226: the variants of the source, mapped onto the new product's options.\<close>

definition optionIdByName :: "created_option list \<Rightarrow> string \<rightharpoonup> string" where
  "optionIdByName opts = fold (\<lambda>opt m. m(co_name opt \<mapsto> co_id opt)) opts Map.empty"

definition variantsInput :: "base_variant list \<Rightarrow> created_product \<Rightarrow> variant_input list" where
  "variantsInput baseVariants created =
     map (\<lambda>bv.
           \<lparr>vi_price = bv_price bv,
            vi_optionValues =
              map (\<lambda>so. \<lparr>ovi_name = so_value so,
                         ovi_optionId =
                           optionIdByName
                             (case cp_options created of Some os \<Rightarrow> os | None \<Rightarrow> [])
                             (so_name so)\<rparr>)
                  (case bv_selectedOptions bv of Some sos \<Rightarrow> sos | None \<Rightarrow> [])\<rparr>)
         baseVariants"

text \<open>
  Lines 244-254 and 261-272: the price override, one bulk update of one variant. Remote
  errors are logged (\<open>failed\<close> is the logger's message) and the run goes on.
\<close>

definition update_price ::
  "'s graphql \<Rightarrow> string \<Rightarrow> string \<Rightarrow> string \<Rightarrow> string \<Rightarrow> 's \<Rightarrow> ('s, unit) step" where
  "update_price g newProductId firstVariantId priceStr failed s =
     then_do (call g (UpdateVariants newProductId
                        [\<lparr>vu_id = firstVariantId, vu_price = priceStr\<rparr>]) s)
       (\<lambda>vbJson s'.
          if has_errors (userErrors_of vup_userErrors (as_variants_update vbJson))
          then (Inr (), s', [LoggerError failed])
          else (Inr (), s', []))"

text \<open>Lines 239-256: the override of the first variant that the bulk creation made.\<close>

definition first_id :: "string option list option \<Rightarrow> string option" where
  "first_id nodes = (case nodes of Some (v # vs) \<Rightarrow> v | _ \<Rightarrow> None)"

definition createdVariants :: "response \<Rightarrow> string option list option" where
  "createdVariants vcJson =
     nullish (Option.bind (mj_payload (as_variants_create vcJson)) vcp_productVariants)
             (Option.bind (mj_data (as_variants_create vcJson)) vcp_productVariants)"

definition override_first_created ::
  "'s graphql \<Rightarrow> duplicate_input \<Rightarrow> string \<Rightarrow> response \<Rightarrow> 's \<Rightarrow> ('s, unit) step" where
  "override_first_created g dup newProductId vcJson s =
     (case if_truthy (price dup) of
        Some priceStr \<Rightarrow>
          (case if_truthy (first_id (createdVariants vcJson)) of
             Some firstVariantId \<Rightarrow>
               update_price g newProductId firstVariantId priceStr
                 ''productVariantsBulkUpdate (override) failed'' s
           | None \<Rightarrow> (Inr (), s, []))
      | None \<Rightarrow> (Inr (), s, []))"

text \<open>Lines 234-257: what follows the answer of the bulk creation of variants.\<close>

definition after_bulk_create ::
  "'s graphql \<Rightarrow> duplicate_input \<Rightarrow> string \<Rightarrow> response \<Rightarrow> 's \<Rightarrow> ('s, unit) step" where
  "after_bulk_create g dup newProductId vcJson s =
     (if has_errors (userErrors_of vcp_userErrors (as_variants_create vcJson))
      then (Inr (), s, [LoggerError ''productVariantsBulkCreate failed''])
      else override_first_created g dup newProductId vcJson s)"

text \<open>Lines 259-273: no variants to replicate, the override goes to the standalone variant.\<close>

definition override_standalone ::
  "'s graphql \<Rightarrow> duplicate_input \<Rightarrow> created_product \<Rightarrow> string \<Rightarrow> 's \<Rightarrow> ('s, unit) step" where
  "override_standalone g dup created newProductId s =
     (case if_truthy (price dup) of
        Some priceStr \<Rightarrow>
          (case if_truthy (first_id (cp_variant_ids created)) of
             Some firstVariantId \<Rightarrow>
               update_price g newProductId firstVariantId priceStr
                 ''productVariantsBulkUpdate failed'' s
           | None \<Rightarrow> (Inr (), s, []))
      | None \<Rightarrow> (Inr (), s, []))"

text \<open>Lines 211-274: variants and price override of one created product.\<close>

definition baseVariants :: "base_product \<Rightarrow> base_variant list" where
  "baseVariants base = (case base_variants base of Some vs \<Rightarrow> vs | None \<Rightarrow> [])"

definition replicate_variants ::
  "'s graphql \<Rightarrow> base_product \<Rightarrow> duplicate_input \<Rightarrow> created_product \<Rightarrow> string \<Rightarrow> 's
   \<Rightarrow> ('s, unit) step" where
  "replicate_variants g base dup created newProductId s =
     (if 0 < length (baseVariants base) then
        then_do (call g (CreateVariants newProductId (variantsInput (baseVariants base) created)
                           ''REMOVE_STANDALONE_VARIANT'') s)
          (after_bulk_create g dup newProductId)
      else override_standalone g dup created newProductId s)"

text \<open>
  Lines 199-274: what follows the answer of the product creation. The result is the id
  pushed onto \<open>newProductIds\<close>.
\<close>

definition created_product_of :: "response \<Rightarrow> created_product option" where
  "created_product_of createJson =
     nullish (Option.bind (mj_payload (as_create createJson)) cpl_product)
             (Option.bind (mj_data (as_create createJson)) cpl_product)"

definition after_product_create ::
  "'s graphql \<Rightarrow> base_product \<Rightarrow> nat \<Rightarrow> duplicate_input \<Rightarrow> response \<Rightarrow> 's \<Rightarrow> ('s, string) step" where
  "after_product_create g base idx dup createJson s =
     (if has_errors (userErrors_of cpl_userErrors (as_create createJson))
      then (Inl (Error (''Failed to create duplicate #'' @ string_of_nat (idx + 1) @ '': ''
                         @ error_messages (userErrors_of cpl_userErrors (as_create createJson)))),
            s, [LoggerError ''productCreate failed''])
      else
        (case created_product_of createJson of
           None \<Rightarrow> (Inl (Error ''productCreate returned no product id''), s, [])
         | Some created \<Rightarrow>
             (case if_truthy (cp_id created) of
                None \<Rightarrow> (Inl (Error ''productCreate returned no product id''), s, [])
              | Some newProductId \<Rightarrow>
                  then_do (replicate_variants g base dup created newProductId s)
                    (\<lambda>_ s'. (Inr newProductId, s', [])))))"

text \<open>Lines 154-278, the body of the loop for the duplicate at index \<open>idx\<close>.\<close>

definition create_duplicate ::
  "'s graphql \<Rightarrow> base_product \<Rightarrow> nat \<Rightarrow> duplicate_input \<Rightarrow> 's \<Rightarrow> ('s, string) step" where
  "create_duplicate g base idx dup s =
     then_do (call g (CreateProduct (productInput base dup) (media_argument base dup)) s)
       (after_product_create g base idx dup)"

text \<open>
  Lines 150-279: the loop over \<open>p.duplicates.entries()\<close>. The console output and the fixed
  delay of 250 ms after each duplicate leave no trace in the model.
\<close>

fun duplicate_loop ::
  "'s graphql \<Rightarrow> base_product \<Rightarrow> nat \<Rightarrow> duplicate_input list \<Rightarrow> string list \<Rightarrow> 's
   \<Rightarrow> ('s, string list) step" where
  "duplicate_loop g base idx [] newProductIds s = (Inr newProductIds, s, [])"
| "duplicate_loop g base idx (dup # dups) newProductIds s =
     then_do (create_duplicate g base idx dup s)
       (\<lambda>newProductId s'. duplicate_loop g base (Suc idx) dups (newProductIds @ [newProductId]) s')"

record run_result =
  productIds :: "string list"
  count :: nat

text \<open>Lines 128-285: the run once the parameters are checked and the connection is there.\<close>

definition duplicate_all ::
  "'s graphql \<Rightarrow> duplicate_input list \<Rightarrow> response \<Rightarrow> 's \<Rightarrow> ('s, run_result) step" where
  "duplicate_all g dups baseJson s =
     (case nullish (bj_product (as_base baseJson)) (bj_data_product (as_base baseJson)) of
        None \<Rightarrow> (Inl (Error ''Base product not found''), s, [])
      | Some base \<Rightarrow>
          then_do (duplicate_loop g base 0 dups [] s)
            (\<lambda>newProductIds s'.
               (Inr \<lparr>productIds = newProductIds, count = length newProductIds\<rparr>, s', [])))"

text \<open>Lines 102-286. \<open>conn\<close> is \<open>connections.shopify?.current\<close>.\<close>

definition run :: "'s graphql option \<Rightarrow> params \<Rightarrow> 's \<Rightarrow> ('s, run_result) step" where
  "run conn p s =
     (case if_truthy (sourceProductId p) of
        None \<Rightarrow> (Inl (Error ''sourceProductId is required''), s, [])
      | Some ident \<Rightarrow>
          if \<not> is_product_gid (normalizeGid ident)
          then (Inl (Error ''sourceProductId must be a valid Shopify Product Global ID (e.g., gid://shopify/Product/12345)''), s, [])
          else
            (case duplicates p of
               None \<Rightarrow> (Inl (Error ''duplicates must be a non-empty array''), s, [])
             | Some dups \<Rightarrow>
                 if length dups = 0
                 then (Inl (Error ''duplicates must be a non-empty array''), s, [])
                 else
                   (case conn of
                      None \<Rightarrow> (Inl (Error ''No active Shopify connection for this session''), s, [])
                    | Some g \<Rightarrow>
                        then_do (call g (BaseProduct (normalizeGid ident)) s)
                          (duplicate_all g dups))))"

section \<open>prepareImageUploads\<close>

record file_descriptor =
  filename :: string
  mimeType :: string
  fd_size :: "nat option"
  httpMethod :: "string option"

text \<open>Lines 53-59: the input of \<open>stagedUploadsCreate\<close>, one entry per file descriptor.\<close>

definition stagedUploadsInput :: "file_descriptor list \<Rightarrow> staged_upload_input list" where
  "stagedUploadsInput files =
     map (\<lambda>fd. \<lparr>sui_filename = filename fd, sui_mimeType = mimeType fd,
                 sui_httpMethod = (case httpMethod fd of Some m \<Rightarrow> m | None \<Rightarrow> ''POST''),
                 sui_resource = ''IMAGE'',
                 sui_fileSize = map_option string_of_nat (fd_size fd)\<rparr>) files"

text \<open>Line 69: the targets read out of the answer.\<close>

definition stagedTargets_of :: "response \<Rightarrow> staged_target list" where
  "stagedTargets_of json =
     (case nullish (Option.bind (mj_payload (as_staged json)) sp_stagedTargets)
                   (Option.bind (mj_data (as_staged json)) sp_stagedTargets) of
        Some targets \<Rightarrow> targets
      | None \<Rightarrow> [])"

text \<open>Lines 43-72 of \<open>prepareImageUploads.ts\<close>.\<close>

definition prepareImageUploads ::
  "'s graphql option \<Rightarrow> file_descriptor list option \<Rightarrow> 's \<Rightarrow> ('s, staged_target list) step" where
  "prepareImageUploads conn files s =
     (case files of
        None \<Rightarrow> (Inl (Error ''files must be a non-empty array''), s, [])
      | Some fs \<Rightarrow>
          if length fs = 0 then (Inl (Error ''files must be a non-empty array''), s, [])
          else
            (case conn of
               None \<Rightarrow> (Inl (Error ''No active Shopify connection for this session''), s, [])
             | Some g \<Rightarrow>
                 then_do (call g (StagedUploads (stagedUploadsInput fs)) s)
                   (\<lambda>json s'.
                      if has_errors (userErrors_of sp_userErrors (as_staged json))
                      then (Inl (Error (error_messages
                                   (userErrors_of sp_userErrors (as_staged json)))), s', [])
                      else (Inr (stagedTargets_of json), s', []))))"

section \<open>The client's upload step\<close>

record image_file =
  file_name :: string
  file_type :: string
  file_size :: nat

record duplicate_row =
  row_title :: string
  imageFiles :: "image_file list"
  row_imageUrls :: "string list"

record fetch_response =
  ok :: bool
  status :: nat
  resp_text :: "string option"

text \<open>
  The client reaches the action through \<open>api.prepareImageUploads\<close>, which is an object with
  a \<open>run\<close> method, a function, or neither. The action's result is read as
  \<open>prepRes?.targets\<close>.
\<close>

type_synonym 's prepare_action =
  "file_descriptor list \<Rightarrow> 's \<Rightarrow> ('s, staged_target list option) step"

datatype 's api_client =
  ActionWithRun "'s prepare_action"
| ActionFunction "'s prepare_action"
| ActionMissing

text \<open>The action of \<open>prepareImageUploads.ts\<close> behind the client: its result is \<open>{ targets }\<close>.\<close>

definition remote_prepareImageUploads :: "'s graphql option \<Rightarrow> 's prepare_action" where
  "remote_prepareImageUploads conn files s =
     then_do (prepareImageUploads conn (Some files) s)
       (\<lambda>targets s'. (Inr (Some targets), s', []))"

text \<open>Lines 175-176 of \<open>uploadImagesIfNeeded\<close>: every file with the index of its row.\<close>

definition allFiles :: "duplicate_row list \<Rightarrow> (nat \<times> image_file) list" where
  "allFiles rows =
     concat (map (\<lambda>(i, r). map (\<lambda>f. (i, f)) (imageFiles r)) (enumerate 0 rows))"

definition reqFiles :: "(nat \<times> image_file) list \<Rightarrow> file_descriptor list" where
  "reqFiles fs =
     map (\<lambda>(i, f). \<lparr>filename = file_name f,
                    mimeType = (if file_type f \<noteq> [] then file_type f else ''image/jpeg''),
                    fd_size = Some (file_size f), httpMethod = None\<rparr>) fs"

text \<open>
  Lines 191-205. The uploads run concurrently under \<open>Promise.all\<close>: all are started in
  index order, and \<open>order\<close> is the order in which they complete. Each completed upload
  pushes its resource URL onto the list of its row; the first failure rejects the whole.
\<close>

type_synonym fetch = "string \<Rightarrow> (string \<times> string) list \<Rightarrow> image_file \<Rightarrow> error + fetch_response"

definition form_of :: "staged_target \<Rightarrow> image_file \<Rightarrow> (string \<times> string) list" where
  "form_of t f = parameters t @ [(''file'', file_name f)]"

fun upload_all ::
  "fetch \<Rightarrow> staged_target list \<Rightarrow> (nat \<times> image_file) list \<Rightarrow> nat list \<Rightarrow> (nat \<times> string list) list
   \<Rightarrow> error + (nat \<times> string list) list" where
  "upload_all fetch targets files [] perRowUrls = Inr perRowUrls"
| "upload_all fetch targets files (idx # order) perRowUrls =
     (if idx < length targets \<and> idx < length files then
        (case fetch (url (targets ! idx)) (form_of (targets ! idx) (snd (files ! idx)))
                (snd (files ! idx)) of
           Inl e \<Rightarrow> Inl e
         | Inr resp \<Rightarrow>
             if \<not> ok resp \<and> status resp \<noteq> 201
             then Inl (Error (''Upload failed ('' @ string_of_nat (status resp) @ '') ''
                              @ (case resp_text resp of Some t \<Rightarrow> t | None \<Rightarrow> [])))
             else
               (let i = fst (files ! idx) in
                upload_all fetch targets files order
                  (if i < length perRowUrls
                   then perRowUrls[i := (fst (perRowUrls ! i),
                                         snd (perRowUrls ! i) @ [resourceUrl (targets ! idx)])]
                   else perRowUrls)))
      else upload_all fetch targets files order perRowUrls)"

text \<open>Lines 173-209 of the route component.\<close>

definition uploadImagesIfNeeded ::
  "'s api_client \<Rightarrow> fetch \<Rightarrow> nat list \<Rightarrow> duplicate_row list \<Rightarrow> 's
   \<Rightarrow> ('s, (nat \<times> string list) list) step" where
  "uploadImagesIfNeeded client fetch order rows s =
     (if length (allFiles rows) = 0 then (Inr [], s, [])
      else
        then_do
          (case client of
             ActionWithRun act \<Rightarrow> act (reqFiles (allFiles rows)) s
           | ActionFunction act \<Rightarrow> act (reqFiles (allFiles rows)) s
           | ActionMissing \<Rightarrow>
               (Inl (Error ''prepareImageUploads action not available in client''), s, []))
          (\<lambda>prepRes s'.
             let targets = (case prepRes of Some ts \<Rightarrow> ts | None \<Rightarrow> []) in
             if length targets \<noteq> length (allFiles rows)
             then (Inl (Error ''Staged uploads count mismatch''), s', [])
             else
               (upload_all fetch targets (allFiles rows) order
                  (map (\<lambda>(i, r). (i, [])) (enumerate 0 rows)),
                s',
                map (\<lambda>(t, (i, f)). Fetch (url t) (form_of t f) (file_name f))
                    (zip targets (allFiles rows)))))"

section \<open>Reading a run's events\<close>

text \<open>The product creations among the events, in call order: request and answer.\<close>

fun creations :: "event list \<Rightarrow> ((product_input \<times> media_input list option) \<times> (error + response)) list" where
  "creations [] = []"
| "creations (Call (CreateProduct pin media) r # evs) = ((pin, media), r) # creations evs"
| "creations (ev # evs) = creations evs"

text \<open>The bulk updates of variants among the events, in call order.\<close>

fun updates :: "event list \<Rightarrow> (string \<times> variant_update list) list" where
  "updates [] = []"
| "updates (Call (UpdateVariants pid vs) r # evs) = (pid, vs) # updates evs"
| "updates (ev # evs) = updates evs"

text \<open>The requests of the remote calls among the events, in call order.\<close>

fun requests :: "event list \<Rightarrow> request list" where
  "requests [] = []"
| "requests (Call req r # evs) = req # requests evs"
| "requests (ev # evs) = requests evs"

text \<open>The id a creation answer carries, as the run reads it.\<close>

definition created_id :: "error + response \<Rightarrow> string option" where
  "created_id r =
     (case r of
        Inl e \<Rightarrow> None
      | Inr createJson \<Rightarrow>
          Option.bind (created_product_of createJson) (\<lambda>created. if_truthy (cp_id created)))"

text \<open>The answers of the bulk creations of variants among the events, in call order.\<close>

fun bulk_creations :: "event list \<Rightarrow> (error + response) list" where
  "bulk_creations [] = []"
| "bulk_creations (Call (CreateVariants pid vs strategy) r # evs) = r # bulk_creations evs"
| "bulk_creations (ev # evs) = bulk_creations evs"

text \<open>
  An answer that reports no error: the call did not throw, and none of the readings of
  \<open>userErrors\<close> that the run makes finds an error.
\<close>

definition reports_no_errors :: "error + response \<Rightarrow> bool" where
  "reports_no_errors r =
     (case r of
        Inl e \<Rightarrow> False
      | Inr json \<Rightarrow>
          \<not> has_errors (userErrors_of cpl_userErrors (as_create json))
          \<and> \<not> has_errors (userErrors_of vcp_userErrors (as_variants_create json))
          \<and> \<not> has_errors (userErrors_of vup_userErrors (as_variants_update json)))"

text \<open>
  Lines 111-132 read alone: the source product that a run resolves, with the remote's
  state behind the query. \<open>None\<close> when the run throws before its loop for a reason of the
  source: no identifier, a malformed one, a failed query, no product.
\<close>

definition source_product :: "'s graphql \<Rightarrow> params \<Rightarrow> 's \<Rightarrow> (base_product \<times> 's) option" where
  "source_product g p s =
     (case if_truthy (sourceProductId p) of
        None \<Rightarrow> None
      | Some ident \<Rightarrow>
          if \<not> is_product_gid (normalizeGid ident) then None
          else
            (case g (BaseProduct (normalizeGid ident)) s of
               (Inl e, s') \<Rightarrow> None
             | (Inr baseJson, s') \<Rightarrow>
                 map_option (\<lambda>base. (base, s'))
                   (nullish (bj_product (as_base baseJson)) (bj_data_product (as_base baseJson)))))"

section \<open>Sample data\<close>

definition sample_base :: base_product where
  "sample_base =
     \<lparr>base_id = ''gid://shopify/Product/1'', base_title = ''Mug'',
      base_descriptionHtml = Some ''<p>A mug</p>'', base_vendor = Some ''Acme'',
      base_productType = Some ''Kitchen'', base_tags = Some [''cup'', ''blue''],
      base_options = Some [\<lparr>opt_name = ''Size'', opt_optionValues = Some [''S'', ''L'']\<rparr>],
      base_variants =
        Some [\<lparr>bv_price = Some ''10.00'',
               bv_selectedOptions = Some [\<lparr>so_name = ''Size'', so_value = ''S''\<rparr>]\<rparr>,
              \<lparr>bv_price = Some ''12.00'',
               bv_selectedOptions = Some [\<lparr>so_name = ''Size'', so_value = ''L''\<rparr>]\<rparr>],
      base_media =
        Some [\<lparr>mediaContentType = Some ''IMAGE'', image_url = Some ''https://cdn/a.png'',
               preview_image_url = None\<rparr>,
              \<lparr>mediaContentType = Some ''VIDEO'', image_url = None,
               preview_image_url = Some ''https://cdn/v.png''\<rparr>,
              \<lparr>mediaContentType = Some ''IMAGE'', image_url = None,
               preview_image_url = Some ''https://cdn/b.png''\<rparr>]\<rparr>"

definition no_overrides :: duplicate_input where
  "no_overrides =
     \<lparr>title = None, imageUrls = None, descriptionHtml = None, vendor = None, tags = None,
      productType = None, price = None\<rparr>"

definition sample_params :: "duplicate_input list \<Rightarrow> params" where
  "sample_params dups = \<lparr>sourceProductId = Some ''1'', duplicates = Some dups\<rparr>"

text \<open>Answers of the remote: a created product, a creation without product, a refusal.\<close>

definition created_answer :: "nat \<Rightarrow> error + response" where
  "created_answer n =
     Inr (CreateJson
       \<lparr>mj_payload =
          Some \<lparr>cpl_product =
                  Some \<lparr>cp_id = Some (''gid://shopify/Product/'' @ string_of_nat (100 + n)),
                        cp_options = Some [\<lparr>co_id = ''opt1'', co_name = ''Size''\<rparr>],
                        cp_variant_ids = Some [Some ''v0'']\<rparr>,
                cpl_userErrors = Some []\<rparr>,
        mj_errors = None, mj_data = None\<rparr>)"

definition empty_answer :: "error + response" where
  "empty_answer =
     Inr (CreateJson
       \<lparr>mj_payload = Some \<lparr>cpl_product = None, cpl_userErrors = Some []\<rparr>,
        mj_errors = None, mj_data = None\<rparr>)"

definition refused_answer :: "error + response" where
  "refused_answer =
     Inr (CreateJson
       \<lparr>mj_payload =
          Some \<lparr>cpl_product = None,
                cpl_userErrors = Some [\<lparr>message = ''Title is taken''\<rparr>,
                                       \<lparr>message = ''Vendor is too long''\<rparr>]\<rparr>,
        mj_errors = None, mj_data = None\<rparr>)"

definition variants_answer :: "error + response" where
  "variants_answer =
     Inr (VariantsCreateJson
       \<lparr>mj_payload = Some \<lparr>vcp_productVariants = Some [Some ''var1'', Some ''var2''],
                           vcp_userErrors = Some []\<rparr>,
        mj_errors = None, mj_data = None\<rparr>)"

definition variants_refused :: "error + response" where
  "variants_refused =
     Inr (VariantsCreateJson
       \<lparr>mj_payload = Some \<lparr>vcp_productVariants = None,
                           vcp_userErrors = Some [\<lparr>message = ''Option does not exist''\<rparr>]\<rparr>,
        mj_errors = None, mj_data = None\<rparr>)"

text \<open>
  A remote whose state counts the products it was asked to create: \<open>on_create\<close> answers
  the creation of that number, \<open>on_variants\<close> every bulk creation of variants.
\<close>

definition sample_remote :: "(nat \<Rightarrow> error + response) \<Rightarrow> (error + response) \<Rightarrow> nat graphql" where
  "sample_remote on_create on_variants req n =
     (case req of
        BaseProduct ident \<Rightarrow>
          (Inr (BaseJson \<lparr>bj_product = Some sample_base, bj_data_product = None\<rparr>), n)
      | CreateProduct pin media \<Rightarrow> (on_create n, Suc n)
      | CreateVariants pid vs strategy \<Rightarrow> (on_variants, n)
      | UpdateVariants pid vs \<Rightarrow>
          (Inr (VariantsUpdateJson
             \<lparr>mj_payload = Some \<lparr>vup_userErrors = Some []\<rparr>, mj_errors = None, mj_data = None\<rparr>), n)
      | StagedUploads inputs \<Rightarrow>
          (Inr (StagedJson \<lparr>mj_payload = None, mj_errors = None, mj_data = None\<rparr>), n))"

text \<open>The second creation is refused, the others succeed.\<close>

definition second_refused :: "nat \<Rightarrow> error + response" where
  "second_refused n = (if n = 1 then refused_answer else created_answer n)"

text \<open>A duplicate whose only override is its price.\<close>

definition priced :: duplicate_input where
  "priced = no_overrides\<lparr>price := Some ''9.99''\<rparr>"

text \<open>Duplicates with an empty vendor, and with tags given as an untidy array.\<close>

definition blank_vendor :: duplicate_input where
  "blank_vendor = no_overrides\<lparr>vendor := Some []\<rparr>"

definition untidy_tags :: duplicate_input where
  "untidy_tags = no_overrides\<lparr>tags := Some (TagArray ['' a '', []])\<rparr>"

text \<open>A duplicate whose title override has spaces around it.\<close>

definition spaced_title :: duplicate_input where
  "spaced_title = no_overrides\<lparr>title := Some '' Cup '', vendor := Some ''Bolt''\<rparr>"

text \<open>Duplicates with tags given as a string, with no tags, and with an empty image list.\<close>

definition string_tags :: duplicate_input where
  "string_tags = no_overrides\<lparr>tags := Some (TagString ''red, , big,'')\<rparr>"

definition no_tags :: duplicate_input where
  "no_tags = no_overrides\<lparr>tags := Some (TagArray [])\<rparr>"

definition no_images :: duplicate_input where
  "no_images = no_overrides\<lparr>imageUrls := Some []\<rparr>"

text \<open>
  Rows of the form: two rows without local files, and two rows with three local files
  between them.
\<close>

definition rows_without_files :: "duplicate_row list" where
  "rows_without_files =
     [\<lparr>row_title = ''Cup'', imageFiles = [], row_imageUrls = [''https://cdn/c.png'']\<rparr>,
      \<lparr>row_title = ''Bowl'', imageFiles = [], row_imageUrls = []\<rparr>]"

definition rows_with_files :: "duplicate_row list" where
  "rows_with_files =
     [\<lparr>row_title = ''Cup'',
       imageFiles = [\<lparr>file_name = ''a.png'', file_type = ''image/png'', file_size = 10\<rparr>,
                     \<lparr>file_name = ''b.jpg'', file_type = [], file_size = 20\<rparr>],
       row_imageUrls = []\<rparr>,
      \<lparr>row_title = ''Bowl'',
       imageFiles = [\<lparr>file_name = ''c.png'', file_type = ''image/png'', file_size = 30\<rparr>],
       row_imageUrls = []\<rparr>]"

text \<open>
  A remote that stages one target whatever it is asked for, and one that refuses to stage.
\<close>

definition one_target :: staged_target where
  "one_target = \<lparr>url = ''https://upload'', resourceUrl = ''https://res/1'', parameters = []\<rparr>"

definition short_stager :: "nat graphql" where
  "short_stager req n =
     (Inr (StagedJson
        \<lparr>mj_payload = Some \<lparr>sp_stagedTargets = Some [one_target], sp_userErrors = Some []\<rparr>,
         mj_errors = None, mj_data = None\<rparr>), n)"

definition refusing_stager :: "nat graphql" where
  "refusing_stager req n =
     (Inr (StagedJson
        \<lparr>mj_payload = Some \<lparr>sp_stagedTargets = None,
                            sp_userErrors = Some [\<lparr>message = ''File is too large''\<rparr>]\<rparr>,
         mj_errors = None, mj_data = None\<rparr>), n)"

definition no_fetch :: fetch where
  "no_fetch u form f = Inl (Error ''network'')"

section \<open>The source's image URLs, as the specification words them\<close>

text \<open>
  The ordered list of image URLs extracted from the media, preferring the primary image
  field and falling back to a preview image field per entry; an entry with neither gives
  nothing.
\<close>

definition spec_image_url :: "media_node \<Rightarrow> string option" where
  "spec_image_url node =
     (case if_truthy (image_url node) of
        Some u \<Rightarrow> Some u
      | None \<Rightarrow> if_truthy (preview_image_url node))"

definition spec_image_urls :: "base_product \<Rightarrow> string list" where
  "spec_image_urls base =
     List.map_filter spec_image_url (case base_media base of Some nodes \<Rightarrow> nodes | None \<Rightarrow> [])"

text \<open>The same list, read from the media entries of content type \<open>IMAGE\<close> alone.\<close>

definition image_entry_urls :: "base_product \<Rightarrow> string list" where
  "image_entry_urls base =
     List.map_filter spec_image_url
       (filter (\<lambda>node. mediaContentType node = Some ''IMAGE'')
          (case base_media base of Some nodes \<Rightarrow> nodes | None \<Rightarrow> []))"

section \<open>Sequencing and events: basic facts\<close>

lemma then_do_Inl: "then_do (Inl e, s, evs) f = (Inl e, s, evs)"
  by (simp add: then_do_def)

lemma then_do_Inr: "then_do (Inr a, s, evs) f = (fst (f a s), fst (snd (f a s)), evs @ snd (snd (f a s)))"
  by (simp add: then_do_def split: prod.splits)

lemma then_do_result:
  assumes "then_do m f = (r, s', evs)"
  shows "(\<exists>e. m = (Inl e, s', evs) \<and> r = Inl e)
       \<or> (\<exists>a s1 evs1 evs2. m = (Inr a, s1, evs1) \<and> f a s1 = (r, s', evs2) \<and> evs = evs1 @ evs2)"
proof (cases m)
  case (fields res s1 evs1)
  show ?thesis
  proof (cases res)
    case (Inl e)
    with fields assms show ?thesis by (simp add: then_do_Inl)
  next
    case (Inr a)
    with fields assms show ?thesis by (cases "f a s1") (simp add: then_do_Inr)
  qed
qed

lemma call_result: "call g req s = (r, s', evs) \<Longrightarrow> r = fst (g req s) \<and> s' = snd (g req s) \<and> evs = [Call req r]"
  by (auto simp: call_def split: prod.splits)

lemma creations_append: "creations (xs @ ys) = creations xs @ creations ys"
  by (induction xs rule: creations.induct) simp_all

lemma updates_append: "updates (xs @ ys) = updates xs @ updates ys"
  by (induction xs rule: updates.induct) simp_all

lemma requests_append: "requests (xs @ ys) = requests xs @ requests ys"
  by (induction xs rule: requests.induct) simp_all

lemma update_price_result:
  assumes "update_price g pid vid pr failed s = (r, s', evs)"
  shows "r = Inr () \<or> (\<exists>e. r = Inl e)"
    and "\<exists>lg. evs = Call (UpdateVariants pid [\<lparr>vu_id = vid, vu_price = pr\<rparr>])
                (fst (g (UpdateVariants pid [\<lparr>vu_id = vid, vu_price = pr\<rparr>]) s)) # lg
          \<and> (lg = [] \<or> lg = [LoggerError failed])"
  using then_do_result [OF assms [unfolded update_price_def]]
  by (auto dest!: call_result split: if_splits)

lemma update_price_creations:
  "update_price g pid vid pr failed s = (r, s', evs) \<Longrightarrow> creations evs = []"
  by (auto dest!: update_price_result(2))

lemma override_first_created_creations:
  "override_first_created g dup pid vcJson s = (r, s', evs) \<Longrightarrow> creations evs = []"
  by (auto simp: override_first_created_def split: option.splits dest: update_price_creations)

lemma override_standalone_creations:
  "override_standalone g dup created pid s = (r, s', evs) \<Longrightarrow> creations evs = []"
  by (auto simp: override_standalone_def split: option.splits dest: update_price_creations)

lemma after_bulk_create_creations:
  "after_bulk_create g dup pid vcJson s = (r, s', evs) \<Longrightarrow> creations evs = []"
  by (auto simp: after_bulk_create_def split: if_splits dest: override_first_created_creations)

lemma replicate_variants_creations:
  assumes "replicate_variants g base dup created pid s = (r, s', evs)"
  shows "creations evs = []"
proof (cases "0 < length (baseVariants base)")
  case True
  with assms have "then_do (call g (CreateVariants pid (variantsInput (baseVariants base) created)
                           ''REMOVE_STANDALONE_VARIANT'') s) (after_bulk_create g dup pid) = (r, s', evs)"
    by (simp add: replicate_variants_def)
  from then_do_result [OF this] show ?thesis
    by (auto dest!: call_result after_bulk_create_creations simp: creations_append)
next
  case False
  with assms show ?thesis
    by (auto simp: replicate_variants_def dest: override_standalone_creations)
qed

lemma after_product_create_creations:
  assumes "after_product_create g base idx dup createJson s = (r, s', evs)"
  shows "creations evs = []"
proof (cases "has_errors (userErrors_of cpl_userErrors (as_create createJson))")
  case True
  with assms show ?thesis by (auto simp: after_product_create_def)
next
  case False
  show ?thesis
  proof (cases "created_product_of createJson")
    case None
    with False assms show ?thesis by (auto simp: after_product_create_def)
  next
    case (Some created)
    show ?thesis
    proof (cases "if_truthy (cp_id created)")
      case None
      with Some False assms show ?thesis by (auto simp: after_product_create_def)
    next
      case (Some nid)
      with \<open>created_product_of createJson = Some created\<close> False assms
      have "then_do (replicate_variants g base dup created nid s) (\<lambda>_ s'. (Inr nid, s', [])) = (r, s', evs)"
        by (simp add: after_product_create_def)
      from then_do_result [OF this] show ?thesis
        by (auto dest!: replicate_variants_creations)
    qed
  qed
qed

lemma create_duplicate_creations:
  assumes "create_duplicate g base idx dup s = (r, s', evs)"
  shows "creations evs = [((productInput base dup, media_argument base dup),
                     fst (g (CreateProduct (productInput base dup) (media_argument base dup)) s))]"
  using then_do_result [OF assms [unfolded create_duplicate_def]]
  by (auto dest!: call_result after_product_create_creations simp: creations_append)

section \<open>The loop: one creation per duplicate, in order\<close>

lemma duplicate_loop_creations:
  "duplicate_loop g base idx dups ids s = (r, s', evs) \<Longrightarrow>
     length (creations evs) \<le> length dups
   \<and> map fst (creations evs)
       = map (\<lambda>d. (productInput base d, media_argument base d)) (take (length (creations evs)) dups)"
proof (induction dups arbitrary: idx ids s r s' evs)
  case Nil
  then show ?case by simp
next
  case (Cons dup dups)
  from Cons.prems
  have "then_do (create_duplicate g base idx dup s)
          (\<lambda>nid s1. duplicate_loop g base (Suc idx) dups (ids @ [nid]) s1) = (r, s', evs)"
    by simp
  from then_do_result [OF this] show ?case
  proof (elim disjE exE conjE)
    fix e
    assume "create_duplicate g base idx dup s = (Inl e, s', evs)"
    from create_duplicate_creations [OF this] show ?thesis by simp
  next
    fix nid s1 evs1 evs2
    assume step: "create_duplicate g base idx dup s = (Inr nid, s1, evs1)"
      and rest: "duplicate_loop g base (Suc idx) dups (ids @ [nid]) s1 = (r, s', evs2)"
      and evs: "evs = evs1 @ evs2"
    from create_duplicate_creations [OF step] Cons.IH [OF rest] evs
    show ?thesis by (simp add: creations_append)
  qed
qed

lemma created_id_accepted:
  assumes "created_id (Inr createJson) = Some nid"
  shows "\<exists>created. created_product_of createJson = Some created \<and> if_truthy (cp_id created) = Some nid"
  using assms by (auto simp: created_id_def Option.bind_eq_Some_conv)

lemma create_duplicate_id:
  assumes "create_duplicate g base idx dup s = (Inr nid, s', evs)"
  shows "created_id (fst (g (CreateProduct (productInput base dup) (media_argument base dup)) s)) = Some nid"
proof -
  from then_do_result [OF assms [unfolded create_duplicate_def]]
  obtain createJson s1 evs1 evs2
    where c: "call g (CreateProduct (productInput base dup) (media_argument base dup)) s = (Inr createJson, s1, evs1)"
      and a: "after_product_create g base idx dup createJson s1 = (Inr nid, s', evs2)"
    by auto
  from a have "created_id (Inr createJson) = Some nid"
    by (auto simp: after_product_create_def created_id_def split: if_splits option.splits
        dest!: then_do_result)
  with call_result [OF c] show ?thesis by simp
qed

lemma duplicate_loop_ids:
  "duplicate_loop g base idx dups ids s = (Inr ids', s', evs) \<Longrightarrow>
     length (creations evs) = length dups
   \<and> (\<exists>new. ids' = ids @ new \<and> map Some new = map (created_id \<circ> snd) (creations evs))"
proof (induction dups arbitrary: idx ids s s' evs)
  case Nil
  then show ?case by simp
next
  case (Cons dup dups)
  from Cons.prems
  have "then_do (create_duplicate g base idx dup s)
          (\<lambda>nid s1. duplicate_loop g base (Suc idx) dups (ids @ [nid]) s1) = (Inr ids', s', evs)"
    by simp
  from then_do_result [OF this]
  obtain nid s1 evs1 evs2
    where step: "create_duplicate g base idx dup s = (Inr nid, s1, evs1)"
      and rest: "duplicate_loop g base (Suc idx) dups (ids @ [nid]) s1 = (Inr ids', s', evs2)"
      and evs: "evs = evs1 @ evs2"
    by auto
  from Cons.IH [OF rest] obtain new
    where len: "length (creations evs2) = length dups"
      and new: "ids' = (ids @ [nid]) @ new" "map Some new = map (created_id \<circ> snd) (creations evs2)"
    by auto
  from create_duplicate_creations [OF step] create_duplicate_id [OF step] len new evs
  show ?case by (simp add: creations_append)
qed

section \<open>The run behind a resolved source product\<close>

lemma run_resolved:
  assumes src: "source_product g p s = Some (base, s1)"
    and dups: "duplicates p = Some dups" "dups \<noteq> []"
    and loop: "duplicate_loop g base 0 dups [] s1 = (r, s', evs)"
  shows "\<exists>ident baseJson.
           run (Some g) p s =
             (case r of Inl e \<Rightarrow> Inl e
                      | Inr ids \<Rightarrow> Inr \<lparr>productIds = ids, count = length ids\<rparr>,
              s', Call (BaseProduct ident) (Inr baseJson) # evs)"
proof -
  from src obtain ident where ident: "if_truthy (sourceProductId p) = Some ident"
    by (auto simp: source_product_def split: option.splits)
  from src ident have gid: "is_product_gid (normalizeGid ident)"
    by (auto simp: source_product_def split: if_splits)
  from src ident gid obtain baseJson
    where q: "g (BaseProduct (normalizeGid ident)) s = (Inr baseJson, s1)"
      and b: "nullish (bj_product (as_base baseJson)) (bj_data_product (as_base baseJson)) = Some base"
    by (auto simp: source_product_def split: prod.splits sum.splits)
  have all: "duplicate_all g dups baseJson s1 =
      (case r of Inl e \<Rightarrow> Inl e | Inr ids \<Rightarrow> Inr \<lparr>productIds = ids, count = length ids\<rparr>, s', evs)"
    using b loop by (cases r) (simp_all add: duplicate_all_def then_do_def)
  have "run (Some g) p s =
      (case r of Inl e \<Rightarrow> Inl e | Inr ids \<Rightarrow> Inr \<lparr>productIds = ids, count = length ids\<rparr>,
       s', Call (BaseProduct (normalizeGid ident)) (Inr baseJson) # evs)"
    using ident gid dups q all by (simp add: run_def call_def then_do_Inr)
  then show ?thesis by blast
qed

lemma update_price_returns:
  assumes "\<forall>req st. reports_no_errors (fst (g req st))"
  shows "\<exists>s' evs. update_price g pid vid pr failed s = (Inr (), s', evs)"
proof -
  from assms have "reports_no_errors (fst (g (UpdateVariants pid [\<lparr>vu_id = vid, vu_price = pr\<rparr>]) s))" by blast
  then
  obtain resp s1 where "g (UpdateVariants pid [\<lparr>vu_id = vid, vu_price = pr\<rparr>]) s = (Inr resp, s1)"
    by (cases "g (UpdateVariants pid [\<lparr>vu_id = vid, vu_price = pr\<rparr>]) s")
       (auto simp: reports_no_errors_def split: sum.splits)
  then show ?thesis by (simp add: update_price_def call_def then_do_Inr)
qed

lemma replicate_variants_returns:
  assumes ok: "\<forall>req st. reports_no_errors (fst (g req st))"
  shows "\<exists>s' evs. replicate_variants g base dup created pid s = (Inr (), s', evs)"
proof (cases "0 < length (baseVariants base)")
  case True
  let ?req = "CreateVariants pid (variantsInput (baseVariants base) created) ''REMOVE_STANDALONE_VARIANT''"
  from ok have "reports_no_errors (fst (g ?req s))" by blast
  then obtain vcJson s1 where q: "g ?req s = (Inr vcJson, s1)"
    by (cases "g ?req s") (auto simp: reports_no_errors_def split: sum.splits)
  have "\<exists>s' evs. after_bulk_create g dup pid vcJson s1 = (Inr (), s', evs)"
    using update_price_returns [OF ok]
    by (auto simp: after_bulk_create_def override_first_created_def split: option.splits)
  with True q show ?thesis
    by (auto simp: replicate_variants_def call_def then_do_Inr)
next
  case False
  then show ?thesis
    using update_price_returns [OF ok]
    by (auto simp: replicate_variants_def override_standalone_def split: option.splits)
qed

lemma create_duplicate_returns:
  assumes ok: "\<forall>req st. reports_no_errors (fst (g req st))"
    and cid: "\<forall>pin media st. created_id (fst (g (CreateProduct pin media) st)) \<noteq> None"
  shows "\<exists>nid s' evs. create_duplicate g base idx dup s = (Inr nid, s', evs)"
proof -
  let ?req = "CreateProduct (productInput base dup) (media_argument base dup)"
  from ok have "reports_no_errors (fst (g ?req s))" by blast
  then obtain createJson s1 where q: "g ?req s = (Inr createJson, s1)"
    and noerr: "\<not> has_errors (userErrors_of cpl_userErrors (as_create createJson))"
    by (cases "g ?req s") (auto simp: reports_no_errors_def split: sum.splits)
  from cid have "created_id (fst (g ?req s)) \<noteq> None" by blast
  with q obtain nid where "created_id (Inr createJson) = Some nid" by auto
  from created_id_accepted [OF this] obtain created
    where c: "created_product_of createJson = Some created" "if_truthy (cp_id created) = Some nid"
    by blast
  from replicate_variants_returns [OF ok, of base dup created nid s1]
  obtain s2 evs2 where "replicate_variants g base dup created nid s1 = (Inr (), s2, evs2)" by blast
  with noerr c have "after_product_create g base idx dup createJson s1 = (Inr nid, s2, evs2)"
    by (simp add: after_product_create_def then_do_Inr)
  with q show ?thesis by (simp add: create_duplicate_def call_def then_do_Inr)
qed

lemma duplicate_loop_returns:
  assumes ok: "\<forall>req st. reports_no_errors (fst (g req st))"
    and cid: "\<forall>pin media st. created_id (fst (g (CreateProduct pin media) st)) \<noteq> None"
  shows "\<exists>ids' s' evs. duplicate_loop g base idx dups ids s = (Inr ids', s', evs)"
proof (induction dups arbitrary: idx ids s)
  case Nil
  show ?case by simp
next
  case (Cons dup dups)
  from create_duplicate_returns [OF ok cid, of base idx dup s]
  obtain nid s1 evs1 where step: "create_duplicate g base idx dup s = (Inr nid, s1, evs1)" by blast
  from Cons.IH [of "Suc idx" "ids @ [nid]" s1]
  obtain ids' s' evs where "duplicate_loop g base (Suc idx) dups (ids @ [nid]) s1 = (Inr ids', s', evs)"
    by blast
  with step show ?case by (simp add: then_do_Inr)
qed

section \<open>Evaluating the sample data\<close>

lemmas json_defs = as_base_def as_create_def as_variants_create_def as_variants_update_def
  as_staged_def no_json_def userErrors_of_def has_errors_def nullish_def if_truthy_def
  created_product_of_def createdVariants_def first_id_def error_messages_def

lemma sample_source:
  "source_product (sample_remote c v) (sample_params dups) 0 = Some (sample_base, 0)"
  by (simp add: source_product_def sample_remote_def sample_params_def if_truthy_def
      normalizeGid_def startsWith_def replace_trailing_digits_def after_last_slash_def
      upto_last_slash_def is_product_gid_def is_line_terminator_def as_base_def nullish_def)

section \<open>Identifier normalisation: properties\<close>

lemma normalizeGid_startsWith: "startsWith (normalizeGid x) ''gid://''"
  by (simp add: normalizeGid_def startsWith_def)

text \<open>
  Claim C5. Normalising an identifier that is already of the form
  \<open>gid://shopify/Product/<numeric>\<close> returns it unchanged, normalising is idempotent on
  every string, and the bare numeric id \<open>12345\<close> becomes \<open>gid://shopify/Product/12345\<close>.
\<close>

theorem normalizeGid_idempotent:
  "normalizeGid (''gid://shopify/Product/'' @ n) = ''gid://shopify/Product/'' @ n
   \<and> normalizeGid (normalizeGid x) = normalizeGid x
   \<and> normalizeGid ''12345'' = ''gid://shopify/Product/12345''"
proof -
  have canonical: "normalizeGid (''gid://shopify/Product/'' @ n) = ''gid://shopify/Product/'' @ n"
    by (simp add: normalizeGid_def startsWith_def)
  have idem: "normalizeGid (normalizeGid x) = normalizeGid x"
    using normalizeGid_startsWith [of x] by (simp add: normalizeGid_def)
  have bare: "normalizeGid ''12345'' = ''gid://shopify/Product/12345''"
    by (simp add: normalizeGid_def startsWith_def replace_trailing_digits_def
        after_last_slash_def upto_last_slash_def)
  from canonical idem bare show ?thesis by simp
qed

section \<open>A refused creation aborts the run\<close>

lemma create_duplicate_refused:
  assumes q: "fst (g (CreateProduct (productInput base dup) (media_argument base dup)) s) = Inr createJson"
    and errs: "userErrors_of cpl_userErrors (as_create createJson) = Some (e # es)"
  shows "create_duplicate g base idx dup s =
           (Inl (Error (''Failed to create duplicate #'' @ string_of_nat (idx + 1) @ '': ''
                        @ join ''; '' (map message (e # es)))),
            snd (g (CreateProduct (productInput base dup) (media_argument base dup)) s),
            [Call (CreateProduct (productInput base dup) (media_argument base dup)) (Inr createJson),
             LoggerError ''productCreate failed''])"
proof -
  obtain s1 where "g (CreateProduct (productInput base dup) (media_argument base dup)) s = (Inr createJson, s1)"
    using q by (cases "g (CreateProduct (productInput base dup) (media_argument base dup)) s") simp
  then show ?thesis
    using errs
    by (simp add: create_duplicate_def call_def then_do_Inr after_product_create_def
        has_errors_def error_messages_def)
qed

text \<open>
  Claim C4. With three duplicates, when the first is created and the creation call of the
  second answers with a non-empty \<open>userErrors\<close> array, the run throws an error whose
  message names duplicate 2 and joins the remote messages. The events of the run end with
  that call and the logger's line: the creations requested are those of the first and the
  second duplicate, none is requested for the third, and the run has no result.
\<close>

theorem second_creation_refused_aborts:
  assumes src: "source_product g p s = Some (base, s1)"
    and dups: "duplicates p = Some [d1, d2, d3]"
    and first: "create_duplicate g base 0 d1 s1 = (Inr id1, s2, evs1)"
    and second: "fst (g (CreateProduct (productInput base d2) (media_argument base d2)) s2) = Inr createJson"
    and errs: "userErrors_of cpl_userErrors (as_create createJson) = Some (e # es)"
  shows "\<exists>s' ident baseJson evs.
           run (Some g) p s =
             (Inl (Error (''Failed to create duplicate #2: '' @ join ''; '' (map message (e # es)))),
              s', evs)
         \<and> evs = Call (BaseProduct ident) (Inr baseJson) # evs1 @
                   [Call (CreateProduct (productInput base d2) (media_argument base d2)) (Inr createJson),
                    LoggerError ''productCreate failed'']
         \<and> map fst (creations evs) =
               [(productInput base d1, media_argument base d1),
                (productInput base d2, media_argument base d2)]"
proof -
  let ?msg = "''Failed to create duplicate #2: '' @ join ''; '' (map message (e # es))"
  let ?c2 = "CreateProduct (productInput base d2) (media_argument base d2)"
  have two: "string_of_nat (Suc 0 + 1) = ''2''"
    by (simp add: digit_char_def string_of_nat.simps)
  from create_duplicate_refused [where g = g and base = base and dup = d2 and s = s2 and idx = "Suc 0", OF second errs] two
  have step2: "create_duplicate g base (Suc 0) d2 s2 =
      (Inl (Error ?msg), snd (g ?c2 s2), [Call ?c2 (Inr createJson), LoggerError ''productCreate failed''])"
    by simp
  have loop: "duplicate_loop g base 0 [d1, d2, d3] [] s1 =
      (Inl (Error ?msg), snd (g ?c2 s2),
       evs1 @ [Call ?c2 (Inr createJson), LoggerError ''productCreate failed''])"
    using first step2 by (simp add: then_do_Inr then_do_Inl)
  from run_resolved [OF src dups _ loop] obtain ident baseJson
    where run: "run (Some g) p s =
      (Inl (Error ?msg), snd (g ?c2 s2),
       Call (BaseProduct ident) (Inr baseJson) # evs1 @
         [Call ?c2 (Inr createJson), LoggerError ''productCreate failed''])"
    by auto
  let ?evs = "Call (BaseProduct ident) (Inr baseJson) # evs1 @
         [Call ?c2 (Inr createJson), LoggerError ''productCreate failed'']"
  from create_duplicate_creations [OF first]
  have cr: "map fst (creations ?evs)
        = [(productInput base d1, media_argument base d1), (productInput base d2, media_argument base d2)]"
    by (simp add: creations_append)
  show ?thesis
  proof (intro exI conjI)
    show "run (Some g) p s = (Inl (Error ?msg), snd (g ?c2 s2), ?evs)" by (rule run)
    show "?evs = ?evs" by (rule refl)
    show "map fst (creations ?evs)
        = [(productInput base d1, media_argument base d1), (productInput base d2, media_argument base d2)]"
      by (rule cr)
  qed
qed

text \<open>The theorem on the sample remote that refuses its second creation.\<close>

theorem second_creation_refused_aborts_witness:
  "source_product (sample_remote second_refused variants_answer)
      (sample_params [no_overrides, no_overrides, no_overrides]) 0 = Some (sample_base, 0)
   \<and> (\<exists>s' evs.
         run (Some (sample_remote second_refused variants_answer))
             (sample_params [no_overrides, no_overrides, no_overrides]) 0
           = (Inl (Error ''Failed to create duplicate #2: Title is taken; Vendor is too long''), s', evs)
       \<and> map fst (creations evs) =
               [(productInput sample_base no_overrides, media_argument sample_base no_overrides),
                (productInput sample_base no_overrides, media_argument sample_base no_overrides)])"
proof -
  let ?g = "sample_remote second_refused variants_answer"
  let ?p = "sample_params [no_overrides, no_overrides, no_overrides]"
  have src: "source_product ?g ?p 0 = Some (sample_base, 0)"
    by (rule sample_source)
  have dups: "duplicates ?p = Some [no_overrides, no_overrides, no_overrides]"
    by (simp add: sample_params_def)
  have first: "create_duplicate ?g sample_base 0 no_overrides 0
      = (Inr ''gid://shopify/Product/100'', 1,
         [Call (CreateProduct (productInput sample_base no_overrides)
                  (media_argument sample_base no_overrides)) (created_answer 0),
          Call (CreateVariants ''gid://shopify/Product/100''
                  (variantsInput (baseVariants sample_base)
                     \<lparr>cp_id = Some ''gid://shopify/Product/100'',
                      cp_options = Some [\<lparr>co_id = ''opt1'', co_name = ''Size''\<rparr>],
                      cp_variant_ids = Some [Some ''v0'']\<rparr>)
                  ''REMOVE_STANDALONE_VARIANT'') variants_answer])"
    by (simp add: create_duplicate_def call_def sample_remote_def second_refused_def then_do_def
        after_product_create_def created_answer_def json_defs digit_char_def string_of_nat.simps
        replicate_variants_def baseVariants_def sample_base_def after_bulk_create_def
        variants_answer_def override_first_created_def no_overrides_def)
  have second: "fst (?g (CreateProduct (productInput sample_base no_overrides)
                  (media_argument sample_base no_overrides)) 1) = refused_answer"
    by (simp add: sample_remote_def second_refused_def)
  have errs: "userErrors_of cpl_userErrors
       (as_create (CreateJson
          \<lparr>mj_payload = Some \<lparr>cpl_product = None,
                cpl_userErrors = Some [\<lparr>message = ''Title is taken''\<rparr>,
                                       \<lparr>message = ''Vendor is too long''\<rparr>]\<rparr>,
           mj_errors = None, mj_data = None\<rparr>))
      = Some [\<lparr>message = ''Title is taken''\<rparr>, \<lparr>message = ''Vendor is too long''\<rparr>]"
    by (simp add: json_defs)
  from second_creation_refused_aborts [where g = ?g and p = ?p and s = 0 and ?s1.0 = 0
        and base = sample_base and ?s2.0 = 1,
      OF src dups first second [unfolded refused_answer_def] errs]
  have "\<exists>s' evs. run (Some ?g) ?p 0 =
       (Inl (Error (''Failed to create duplicate #2: '' @ join ''; ''
          (map message [\<lparr>message = ''Title is taken''\<rparr>, \<lparr>message = ''Vendor is too long''\<rparr>]))), s', evs)
     \<and> map fst (creations evs) =
       [(productInput sample_base no_overrides, media_argument sample_base no_overrides),
        (productInput sample_base no_overrides, media_argument sample_base no_overrides)]"
    by (elim exE conjE) (intro exI conjI, assumption+)
  then have "\<exists>s' evs. run (Some ?g) ?p 0 =
       (Inl (Error ''Failed to create duplicate #2: Title is taken; Vendor is too long''), s', evs)
     \<and> map fst (creations evs) =
       [(productInput sample_base no_overrides, media_argument sample_base no_overrides),
        (productInput sample_base no_overrides, media_argument sample_base no_overrides)]"
    by simp
  with src show ?thesis by (rule conjI)
qed

section \<open>Variants and the price override\<close>

lemma bulk_creations_append: "bulk_creations (xs @ ys) = bulk_creations xs @ bulk_creations ys"
  by (induction xs rule: bulk_creations.induct) simp_all

lemma update_price_reads:
  assumes "update_price g pid vid pr failed s = (r, s', evs)"
  shows "updates evs = [(pid, [\<lparr>vu_id = vid, vu_price = pr\<rparr>])]"
    and "bulk_creations evs = []"
    and "requests evs = [UpdateVariants pid [\<lparr>vu_id = vid, vu_price = pr\<rparr>]]"
  using update_price_result(2) [OF assms] by auto

lemma after_bulk_create_cases:
  assumes override: "if_truthy (price dup) = Some priceStr"
    and step: "after_bulk_create g dup pid vcJson s = (r, s', evs)"
  shows "(has_errors (userErrors_of vcp_userErrors (as_variants_create vcJson))
            \<and> updates evs = [] \<and> r = Inr () \<and> requests evs = [])
       \<or> (\<not> has_errors (userErrors_of vcp_userErrors (as_variants_create vcJson))
            \<and> if_truthy (first_id (createdVariants vcJson)) = None
            \<and> updates evs = [] \<and> r = Inr () \<and> requests evs = [])
       \<or> (\<exists>vid. \<not> has_errors (userErrors_of vcp_userErrors (as_variants_create vcJson))
            \<and> if_truthy (first_id (createdVariants vcJson)) = Some vid
            \<and> updates evs = [(pid, [\<lparr>vu_id = vid, vu_price = priceStr\<rparr>])]
            \<and> requests evs = [UpdateVariants pid [\<lparr>vu_id = vid, vu_price = priceStr\<rparr>]])"
    and "bulk_creations evs = []"
  using assms
  by (auto simp: after_bulk_create_def override_first_created_def
      split: if_splits option.splits dest: update_price_reads)

lemma replicate_variants_cases:
  assumes variants: "0 < length (baseVariants base)"
    and override: "if_truthy (price dup) = Some priceStr"
    and step: "replicate_variants g base dup created pid s = (r, s', evs)"
  shows "(\<exists>e. bulk_creations evs = [Inl e] \<and> updates evs = [] \<and> r = Inl e)
       \<or> (\<exists>vcJson. bulk_creations evs = [Inr vcJson]
            \<and> has_errors (userErrors_of vcp_userErrors (as_variants_create vcJson))
            \<and> updates evs = [] \<and> r = Inr ())
       \<or> (\<exists>vcJson. bulk_creations evs = [Inr vcJson]
            \<and> \<not> has_errors (userErrors_of vcp_userErrors (as_variants_create vcJson))
            \<and> if_truthy (first_id (createdVariants vcJson)) = None
            \<and> updates evs = [] \<and> r = Inr ())
       \<or> (\<exists>vcJson vid. bulk_creations evs = [Inr vcJson]
            \<and> \<not> has_errors (userErrors_of vcp_userErrors (as_variants_create vcJson))
            \<and> if_truthy (first_id (createdVariants vcJson)) = Some vid
            \<and> updates evs = [(pid, [\<lparr>vu_id = vid, vu_price = priceStr\<rparr>])])"
proof -
  from variants step
  have "then_do (call g (CreateVariants pid (variantsInput (baseVariants base) created)
                           ''REMOVE_STANDALONE_VARIANT'') s) (after_bulk_create g dup pid) = (r, s', evs)"
    by (simp add: replicate_variants_def)
  from then_do_result [OF this] show ?thesis
  proof (elim disjE exE conjE)
    fix e
    assume "call g (CreateVariants pid (variantsInput (baseVariants base) created)
                           ''REMOVE_STANDALONE_VARIANT'') s = (Inl e, s', evs)" "r = Inl e"
    then show ?thesis by (auto dest!: call_result)
  next
    fix vcJson s1 evs1 evs2
    assume c: "call g (CreateVariants pid (variantsInput (baseVariants base) created)
                           ''REMOVE_STANDALONE_VARIANT'') s = (Inr vcJson, s1, evs1)"
      and a: "after_bulk_create g dup pid vcJson s1 = (r, s', evs2)"
      and evs: "evs = evs1 @ evs2"
    from call_result [OF c] have e1: "bulk_creations evs1 = [Inr vcJson]" "updates evs1 = []"
      by auto
    from after_bulk_create_cases [OF override a] e1 evs
    show ?thesis by (auto simp: bulk_creations_append updates_append)
  qed
qed

lemma create_duplicate_accepted:
  assumes q: "g (CreateProduct (productInput base dup) (media_argument base dup)) s = (Inr createJson, s1)"
    and noerr: "\<not> has_errors (userErrors_of cpl_userErrors (as_create createJson))"
    and created: "created_product_of createJson = Some created" "if_truthy (cp_id created) = Some pid"
    and rv: "replicate_variants g base dup created pid s1 = (r, s2, evs)"
  shows "create_duplicate g base idx dup s =
           (case r of Inl e \<Rightarrow> Inl e | Inr u \<Rightarrow> Inr pid, s2,
            Call (CreateProduct (productInput base dup) (media_argument base dup)) (Inr createJson) # evs)"
  using assms
  by (cases r) (simp_all add: create_duplicate_def call_def then_do_Inr then_do_Inl
      after_product_create_def)

lemma create_duplicate_cases:
  assumes step: "create_duplicate g base idx dup s = (r, s', evs)"
  shows "(updates evs = [] \<and> bulk_creations evs = [] \<and> (\<exists>e. r = Inl e))
       \<or> (\<exists>createJson created pid s1 r1 evs1.
             replicate_variants g base dup created pid s1 = (r1, s', evs1)
           \<and> r = (case r1 of Inl e \<Rightarrow> Inl e | Inr u \<Rightarrow> Inr pid)
           \<and> updates evs = updates evs1 \<and> bulk_creations evs = bulk_creations evs1)"
proof -
  let ?req = "CreateProduct (productInput base dup) (media_argument base dup)"
  obtain a s1 where q: "g ?req s = (a, s1)" by (cases "g ?req s")
  show ?thesis
  proof (cases a)
    case (Inl e)
    with q step show ?thesis
      by (auto simp: create_duplicate_def call_def then_do_Inl)
  next
    case (Inr createJson)
    show ?thesis
    proof (cases "has_errors (userErrors_of cpl_userErrors (as_create createJson))")
      case True
      with q Inr step show ?thesis
        by (auto simp: create_duplicate_def call_def then_do_Inr after_product_create_def)
    next
      case noerr: False
      show ?thesis
      proof (cases "created_product_of createJson")
        case None
        with q Inr noerr step show ?thesis
          by (auto simp: create_duplicate_def call_def then_do_Inr after_product_create_def)
      next
        case (Some created)
        show ?thesis
        proof (cases "if_truthy (cp_id created)")
          case None
          with q Inr noerr Some step show ?thesis
            by (auto simp: create_duplicate_def call_def then_do_Inr after_product_create_def)
        next
          case pid: (Some pid)
          obtain r1 s2 evs1 where rv: "replicate_variants g base dup created pid s1 = (r1, s2, evs1)"
            by (cases "replicate_variants g base dup created pid s1")
          from create_duplicate_accepted [OF q [unfolded Inr] noerr Some pid rv, of idx] step
          have "r = (case r1 of Inl e \<Rightarrow> Inl e | Inr u \<Rightarrow> Inr pid)" "s' = s2"
            "evs = Call ?req (Inr createJson) # evs1"
            by simp_all
          with rv have "replicate_variants g base dup created pid s1 = (r1, s', evs1)
              \<and> r = (case r1 of Inl e \<Rightarrow> Inl e | Inr u \<Rightarrow> Inr pid)
              \<and> updates evs = updates evs1 \<and> bulk_creations evs = bulk_creations evs1"
            by simp
          then show ?thesis by blast
        qed
      qed
    qed
  qed
qed

lemma sample_created_priced:
  "create_duplicate (sample_remote created_answer v) sample_base 0 priced 0 =
     (case replicate_variants (sample_remote created_answer v) sample_base priced
             \<lparr>cp_id = Some ''gid://shopify/Product/100'',
              cp_options = Some [\<lparr>co_id = ''opt1'', co_name = ''Size''\<rparr>],
              cp_variant_ids = Some [Some ''v0'']\<rparr> ''gid://shopify/Product/100'' 1 of
        (r, s', evs) \<Rightarrow>
          (case r of Inl e \<Rightarrow> Inl e | Inr u \<Rightarrow> Inr ''gid://shopify/Product/100'', s',
           Call (CreateProduct (productInput sample_base priced) (media_argument sample_base priced))
             (created_answer 0) # evs))"
proof -
  let ?g = "sample_remote created_answer v"
  let ?created = "\<lparr>cp_id = Some ''gid://shopify/Product/100'',
              cp_options = Some [\<lparr>co_id = ''opt1'', co_name = ''Size''\<rparr>],
              cp_variant_ids = Some [Some ''v0'']\<rparr>"
  let ?json = "CreateJson \<lparr>mj_payload = Some \<lparr>cpl_product = Some ?created, cpl_userErrors = Some []\<rparr>,
        mj_errors = None, mj_data = None\<rparr>"
  have ans: "created_answer 0 = Inr ?json"
    by (simp add: created_answer_def string_of_nat.simps digit_char_def)
  have q: "?g (CreateProduct (productInput sample_base priced) (media_argument sample_base priced)) 0
      = (Inr ?json, 1)"
    by (simp add: sample_remote_def ans)
  have noerr: "\<not> has_errors (userErrors_of cpl_userErrors (as_create ?json))"
    by (simp add: json_defs)
  have created: "created_product_of ?json = Some ?created"
    "if_truthy (cp_id ?created) = Some ''gid://shopify/Product/100''"
    by (simp_all add: json_defs)
  obtain r s' evs where rv: "replicate_variants ?g sample_base priced ?created
      ''gid://shopify/Product/100'' 1 = (r, s', evs)"
    by (cases "replicate_variants ?g sample_base priced ?created ''gid://shopify/Product/100'' 1")
  from create_duplicate_accepted [OF q noerr created rv, of 0] rv ans
  show ?thesis by simp
qed

lemma variantsInput_prices: "map vi_price (variantsInput bvs created) = map bv_price bvs"
  by (simp add: variantsInput_def comp_def)

lemma sample_variants: "baseVariants sample_base =
    [\<lparr>bv_price = Some ''10.00'', bv_selectedOptions = Some [\<lparr>so_name = ''Size'', so_value = ''S''\<rparr>]\<rparr>,
     \<lparr>bv_price = Some ''12.00'', bv_selectedOptions = Some [\<lparr>so_name = ''Size'', so_value = ''L''\<rparr>]\<rparr>]"
  by (simp add: baseVariants_def sample_base_def)

text \<open>
  Claim C8. The source has two variants priced \<open>10.00\<close> and \<open>12.00\<close>, the one duplicate of
  the run carries the price override \<open>9.99\<close>, the product is created and the bulk creation
  of variants succeeds, its first created variant being \<open>v1\<close>. Then the run makes four
  remote calls: the query, the creation, the bulk creation, which carries the prices
  \<open>10.00\<close> and \<open>12.00\<close>, and one bulk update, which sets the price of \<open>v1\<close> alone to \<open>9.99\<close>.
  No call changes the second variant.
\<close>

theorem first_variant_price_override:
  assumes src: "source_product g p s = Some (base, s1)"
    and dups: "duplicates p = Some [dup]"
    and prices: "map bv_price (baseVariants base) = [Some ''10.00'', Some ''12.00'']"
    and override: "price dup = Some ''9.99''"
    and created:
      "g (CreateProduct (productInput base dup) (media_argument base dup)) s1 = (Inr createJson, s2)"
      "\<not> has_errors (userErrors_of cpl_userErrors (as_create createJson))"
      "created_product_of createJson = Some created"
      "if_truthy (cp_id created) = Some pid"
    and bulk:
      "g (CreateVariants pid (variantsInput (baseVariants base) created)
            ''REMOVE_STANDALONE_VARIANT'') s2 = (Inr vcJson, s3)"
      "\<not> has_errors (userErrors_of vcp_userErrors (as_variants_create vcJson))"
      "if_truthy (first_id (createdVariants vcJson)) = Some v1"
  shows "\<exists>r s' ident evs.
           run (Some g) p s = (r, s', evs)
         \<and> updates evs = [(pid, [\<lparr>vu_id = v1, vu_price = ''9.99''\<rparr>])]
         \<and> requests evs =
             [BaseProduct ident,
              CreateProduct (productInput base dup) (media_argument base dup),
              CreateVariants pid (variantsInput (baseVariants base) created)
                ''REMOVE_STANDALONE_VARIANT'',
              UpdateVariants pid [\<lparr>vu_id = v1, vu_price = ''9.99''\<rparr>]]
         \<and> map vi_price (variantsInput (baseVariants base) created)
             = [Some ''10.00'', Some ''12.00'']"
proof -
  let ?cv = "CreateVariants pid (variantsInput (baseVariants base) created) ''REMOVE_STANDALONE_VARIANT''"
  let ?cp = "CreateProduct (productInput base dup) (media_argument base dup)"
  let ?failed = "''productVariantsBulkUpdate (override) failed''"
  from prices have "length (baseVariants base) = 2"
    by (metis length_map length_Cons list.size(3) numeral_2_eq_2)
  then have variants: "0 < length (baseVariants base)" by simp
  from override have pr: "if_truthy (price dup) = Some ''9.99''"
    by (simp add: if_truthy_def)
  obtain ru su eu where up: "update_price g pid v1 ''9.99'' ?failed s3 = (ru, su, eu)"
    by (cases "update_price g pid v1 ''9.99'' ?failed s3")
  have rv: "replicate_variants g base dup created pid s2 = (ru, su, Call ?cv (Inr vcJson) # eu)"
    using variants bulk pr up
    by (simp add: replicate_variants_def call_def then_do_Inr after_bulk_create_def
        override_first_created_def)
  let ?evs = "Call ?cp (Inr createJson) # Call ?cv (Inr vcJson) # eu"
  from create_duplicate_accepted [OF created rv, of 0]
  have loop: "duplicate_loop g base 0 [dup] [] s1 =
      (case ru of Inl e \<Rightarrow> Inl e | Inr u \<Rightarrow> Inr [pid], su, ?evs)"
    by (cases ru) (simp_all add: then_do_Inr then_do_Inl)
  from run_resolved [OF src dups _ loop] obtain r ident baseJson
    where run: "run (Some g) p s = (r, su, Call (BaseProduct ident) (Inr baseJson) # ?evs)"
    by auto
  from update_price_reads [OF up]
  have reads: "updates (Call (BaseProduct ident) (Inr baseJson) # ?evs)
          = [(pid, [\<lparr>vu_id = v1, vu_price = ''9.99''\<rparr>])]"
    "requests (Call (BaseProduct ident) (Inr baseJson) # ?evs)
          = [BaseProduct ident, ?cp, ?cv, UpdateVariants pid [\<lparr>vu_id = v1, vu_price = ''9.99''\<rparr>]]"
    by simp_all
  from prices have vp: "map vi_price (variantsInput (baseVariants base) created)
             = [Some ''10.00'', Some ''12.00'']"
    by (simp add: variantsInput_prices)
  show ?thesis
    by (intro exI conjI) (rule run, rule reads(1), rule reads(2), rule vp)
qed

text \<open>The theorem on the sample remote, whose bulk creation answers two variants.\<close>

theorem first_variant_price_override_witness:
  "source_product (sample_remote created_answer variants_answer) (sample_params [priced]) 0
     = Some (sample_base, 0)
   \<and> (\<exists>r s' ident evs.
         run (Some (sample_remote created_answer variants_answer)) (sample_params [priced]) 0
           = (r, s', evs)
       \<and> updates evs = [(''gid://shopify/Product/100'', [\<lparr>vu_id = ''var1'', vu_price = ''9.99''\<rparr>])]
       \<and> map vi_price (variantsInput (baseVariants sample_base)
             \<lparr>cp_id = Some ''gid://shopify/Product/100'',
              cp_options = Some [\<lparr>co_id = ''opt1'', co_name = ''Size''\<rparr>],
              cp_variant_ids = Some [Some ''v0'']\<rparr>) = [Some ''10.00'', Some ''12.00''])"
proof -
  let ?g = "sample_remote created_answer variants_answer"
  let ?created = "\<lparr>cp_id = Some ''gid://shopify/Product/100'',
              cp_options = Some [\<lparr>co_id = ''opt1'', co_name = ''Size''\<rparr>],
              cp_variant_ids = Some [Some ''v0'']\<rparr>"
  let ?json = "CreateJson \<lparr>mj_payload = Some \<lparr>cpl_product = Some ?created, cpl_userErrors = Some []\<rparr>,
        mj_errors = None, mj_data = None\<rparr>"
  let ?vjson = "VariantsCreateJson
       \<lparr>mj_payload = Some \<lparr>vcp_productVariants = Some [Some ''var1'', Some ''var2''],
                           vcp_userErrors = Some []\<rparr>,
        mj_errors = None, mj_data = None\<rparr>"
  have src: "source_product ?g (sample_params [priced]) 0 = Some (sample_base, 0)"
    by (rule sample_source)
  have dups: "duplicates (sample_params [priced]) = Some [priced]"
    by (simp add: sample_params_def)
  have prices: "map bv_price (baseVariants sample_base) = [Some ''10.00'', Some ''12.00'']"
    by (simp add: sample_variants)
  have override: "price priced = Some ''9.99''"
    by (simp add: priced_def no_overrides_def)
  have created:
    "?g (CreateProduct (productInput sample_base priced) (media_argument sample_base priced)) 0
       = (Inr ?json, 1)"
    "\<not> has_errors (userErrors_of cpl_userErrors (as_create ?json))"
    "created_product_of ?json = Some ?created"
    "if_truthy (cp_id ?created) = Some ''gid://shopify/Product/100''"
    by (simp_all add: sample_remote_def created_answer_def string_of_nat.simps digit_char_def json_defs)
  have bulk:
    "?g (CreateVariants ''gid://shopify/Product/100'' (variantsInput (baseVariants sample_base) ?created)
            ''REMOVE_STANDALONE_VARIANT'') 1 = (Inr ?vjson, 1)"
    "\<not> has_errors (userErrors_of vcp_userErrors (as_variants_create ?vjson))"
    "if_truthy (first_id (createdVariants ?vjson)) = Some ''var1''"
    by (simp_all add: sample_remote_def variants_answer_def json_defs)
  from first_variant_price_override [where g = ?g and s = 0 and ?s1.0 = 0 and ?s2.0 = 1 and ?s3.0 = 1,
      OF src dups prices override created bulk]
  have "\<exists>r s' ident evs.
         run (Some ?g) (sample_params [priced]) 0 = (r, s', evs)
       \<and> updates evs = [(''gid://shopify/Product/100'', [\<lparr>vu_id = ''var1'', vu_price = ''9.99''\<rparr>])]
       \<and> map vi_price (variantsInput (baseVariants sample_base) ?created) = [Some ''10.00'', Some ''12.00'']"
    by (elim exE conjE) (intro exI conjI, assumption+)
  with src show ?thesis by (rule conjI)
qed

text \<open>
  Claim C10. For a duplicate with a price override whose source has at least one variant:
  a bulk update is among the events of its step only if the bulk creation of variants was
  answered without \<open>userErrors\<close> and with a first created variant that has an id, and it
  is then the one update of that variant to the override; and when the bulk creation
  reports \<open>userErrors\<close>, no update is called, the step does not throw, and the loop goes
  on with the next duplicate, the new product id pushed.
\<close>

theorem price_override_needs_created_variant:
  assumes variants: "0 < length (baseVariants base)"
    and override: "if_truthy (price dup) = Some priceStr"
    and step: "create_duplicate g base idx dup s = (r, s', evs)"
  shows "(updates evs \<noteq> [] \<longrightarrow>
            (\<exists>vcJson vid pid.
               bulk_creations evs = [Inr vcJson]
             \<and> \<not> has_errors (userErrors_of vcp_userErrors (as_variants_create vcJson))
             \<and> if_truthy (first_id (createdVariants vcJson)) = Some vid
             \<and> updates evs = [(pid, [\<lparr>vu_id = vid, vu_price = priceStr\<rparr>])]))
       \<and> (\<forall>vcJson.
            bulk_creations evs = [Inr vcJson]
            \<and> has_errors (userErrors_of vcp_userErrors (as_variants_create vcJson)) \<longrightarrow>
              updates evs = []
            \<and> (\<exists>pid. r = Inr pid
                 \<and> (\<forall>rest ids.
                       duplicate_loop g base idx (dup # rest) ids s =
                         then_do (Inr pid, s', evs)
                           (\<lambda>newProductId s1.
                              duplicate_loop g base (Suc idx) rest (ids @ [newProductId]) s1))))"
proof (cases "updates evs = [] \<and> bulk_creations evs = []")
  case True
  then show ?thesis by simp
next
  case False
  with create_duplicate_cases [OF step] obtain created pid s1 r1 evs1
    where rv: "replicate_variants g base dup created pid s1 = (r1, s', evs1)"
      and r: "r = (case r1 of Inl e \<Rightarrow> Inl e | Inr u \<Rightarrow> Inr pid)"
      and ev: "updates evs = updates evs1" "bulk_creations evs = bulk_creations evs1"
    by auto
  from replicate_variants_cases [OF variants override rv] r ev step
  show ?thesis by (elim disjE exE conjE) (simp_all add: then_do_Inr)
qed

text \<open>
  The theorem on the sample remote, once with a bulk creation that succeeds and once with
  one that is refused.
\<close>

theorem price_override_needs_created_variant_witness:
  "(\<exists>r s' evs vcJson vid pid.
      create_duplicate (sample_remote created_answer variants_answer) sample_base 0 priced 0
        = (r, s', evs)
    \<and> bulk_creations evs = [Inr vcJson]
    \<and> \<not> has_errors (userErrors_of vcp_userErrors (as_variants_create vcJson))
    \<and> if_truthy (first_id (createdVariants vcJson)) = Some vid
    \<and> updates evs = [(pid, [\<lparr>vu_id = vid, vu_price = ''9.99''\<rparr>])])
   \<and> (\<exists>s' evs pid.
        create_duplicate (sample_remote created_answer variants_refused) sample_base 0 priced 0
          = (Inr pid, s', evs)
      \<and> updates evs = []
      \<and> duplicate_loop (sample_remote created_answer variants_refused) sample_base 0
            [priced, priced] [] 0
          = then_do (Inr pid, s', evs)
              (\<lambda>newProductId s1.
                 duplicate_loop (sample_remote created_answer variants_refused) sample_base (Suc 0)
                   [priced] ([] @ [newProductId]) s1))"
proof -
  let ?g1 = "sample_remote created_answer variants_answer"
  let ?g2 = "sample_remote created_answer variants_refused"
  let ?pid = "''gid://shopify/Product/100''"
  let ?created = "\<lparr>cp_id = Some ?pid,
              cp_options = Some [\<lparr>co_id = ''opt1'', co_name = ''Size''\<rparr>],
              cp_variant_ids = Some [Some ''v0'']\<rparr>"
  let ?cp = "Call (CreateProduct (productInput sample_base priced) (media_argument sample_base priced))
             (created_answer 0)"
  let ?cv = "CreateVariants ?pid (variantsInput (baseVariants sample_base) ?created)
                ''REMOVE_STANDALONE_VARIANT''"
  let ?up = "Call (UpdateVariants ?pid [\<lparr>vu_id = ''var1'', vu_price = ''9.99''\<rparr>])
         (Inr (VariantsUpdateJson
             \<lparr>mj_payload = Some \<lparr>vup_userErrors = Some []\<rparr>, mj_errors = None, mj_data = None\<rparr>))"
  have variants: "0 < length (baseVariants sample_base)"
    by (simp add: sample_variants)
  have override: "if_truthy (price priced) = Some ''9.99''"
    by (simp add: priced_def no_overrides_def if_truthy_def)
  have rv1: "replicate_variants ?g1 sample_base priced ?created ?pid 1
      = (Inr (), 1, [Call ?cv variants_answer, ?up])"
    using variants override
    by (simp add: replicate_variants_def call_def sample_remote_def then_do_Inr
        variants_answer_def after_bulk_create_def override_first_created_def update_price_def
        json_defs)
  have rv2: "replicate_variants ?g2 sample_base priced ?created ?pid 1
      = (Inr (), 1, [Call ?cv variants_refused, LoggerError ''productVariantsBulkCreate failed''])"
    using variants
    by (simp add: replicate_variants_def call_def sample_remote_def then_do_Inr
        variants_refused_def after_bulk_create_def json_defs)
  have step1: "create_duplicate ?g1 sample_base 0 priced 0
      = (Inr ?pid, 1, [?cp, Call ?cv variants_answer, ?up])"
    using rv1 by (simp add: sample_created_priced)
  have step2: "create_duplicate ?g2 sample_base 0 priced 0
      = (Inr ?pid, 1, [?cp, Call ?cv variants_refused,
           LoggerError ''productVariantsBulkCreate failed''])"
    using rv2 by (simp add: sample_created_priced)
  have refused: "variants_refused = Inr (VariantsCreateJson
       \<lparr>mj_payload = Some \<lparr>vcp_productVariants = None,
                           vcp_userErrors = Some [\<lparr>message = ''Option does not exist''\<rparr>]\<rparr>,
        mj_errors = None, mj_data = None\<rparr>)"
    by (simp add: variants_refused_def)
  from price_override_needs_created_variant [OF variants override step1]
  have a: "\<exists>vcJson vid pid.
      bulk_creations [?cp, Call ?cv variants_answer, ?up] = [Inr vcJson]
    \<and> \<not> has_errors (userErrors_of vcp_userErrors (as_variants_create vcJson))
    \<and> if_truthy (first_id (createdVariants vcJson)) = Some vid
    \<and> updates [?cp, Call ?cv variants_answer, ?up] = [(pid, [\<lparr>vu_id = vid, vu_price = ''9.99''\<rparr>])]"
    by simp
  let ?E2 = "[?cp, Call ?cv variants_refused, LoggerError ''productVariantsBulkCreate failed'']"
  let ?J = "VariantsCreateJson
       \<lparr>mj_payload = Some \<lparr>vcp_productVariants = None,
                           vcp_userErrors = Some [\<lparr>message = ''Option does not exist''\<rparr>]\<rparr>,
        mj_errors = None, mj_data = None\<rparr>"
  have pre: "bulk_creations ?E2 = [Inr ?J]
      \<and> has_errors (userErrors_of vcp_userErrors (as_variants_create ?J))"
    by (simp add: refused json_defs)
  note c = price_override_needs_created_variant [OF variants override step2, THEN conjunct2,
      THEN spec, THEN mp, OF pre]
  have skipped: "updates ?E2 = []"
    using c by (rule conjunct1)
  from c [THEN conjunct2] obtain pid where pid: "Inr ?pid = (Inr pid :: error + string)"
    and all: "\<forall>rest ids.
                 duplicate_loop ?g2 sample_base 0 (priced # rest) ids 0 =
                   then_do (Inr pid, 1, ?E2)
                     (\<lambda>newProductId s1.
                        duplicate_loop ?g2 sample_base (Suc 0) rest (ids @ [newProductId]) s1)"
    by (elim exE conjE)
  from pid have "pid = ?pid" by simp
  with all [THEN spec, THEN spec, of "[priced]" "[]"] skipped
  have b: "updates ?E2 = []
    \<and> duplicate_loop ?g2 sample_base 0 [priced, priced] [] 0
          = then_do (Inr ?pid, 1, ?E2)
              (\<lambda>newProductId s1. duplicate_loop ?g2 sample_base (Suc 0) [priced] ([] @ [newProductId]) s1)"
    by (intro conjI) (assumption, hypsubst, assumption)
  from a step1 have A: "\<exists>r s' evs vcJson vid pid.
      create_duplicate ?g1 sample_base 0 priced 0 = (r, s', evs)
    \<and> bulk_creations evs = [Inr vcJson]
    \<and> \<not> has_errors (userErrors_of vcp_userErrors (as_variants_create vcJson))
    \<and> if_truthy (first_id (createdVariants vcJson)) = Some vid
    \<and> updates evs = [(pid, [\<lparr>vu_id = vid, vu_price = ''9.99''\<rparr>])]"
    by (elim exE conjE) (intro exI conjI, assumption+)
  from b step2 have B: "\<exists>s' evs pid.
        create_duplicate ?g2 sample_base 0 priced 0 = (Inr pid, s', evs)
      \<and> updates evs = []
      \<and> duplicate_loop ?g2 sample_base 0 [priced, priced] [] 0
          = then_do (Inr pid, s', evs)
              (\<lambda>newProductId s1. duplicate_loop ?g2 sample_base (Suc 0) [priced] ([] @ [newProductId]) s1)"
    by (elim exE conjE) (intro exI conjI, assumption+)
  from A B show ?thesis by (rule conjI)
qed

section \<open>The creation requests of a run\<close>

lemma run_creations:
  assumes src: "source_product g p s = Some (base, s1)"
    and dups: "duplicates p = Some dups"
    and run: "run (Some g) p s = (r, s', evs)"
  shows "length (creations evs) \<le> length dups
       \<and> map fst (creations evs)
           = map (\<lambda>d. (productInput base d, media_argument base d)) (take (length (creations evs)) dups)"
proof (cases "dups = []")
  case True
  from src obtain ident where "if_truthy (sourceProductId p) = Some ident"
    "is_product_gid (normalizeGid ident)"
    by (auto simp: source_product_def split: option.splits if_splits)
  with True dups run have "evs = []"
    by (simp add: run_def)
  then show ?thesis by simp
next
  case False
  obtain r1 s2 evs1 where loop: "duplicate_loop g base 0 dups [] s1 = (r1, s2, evs1)"
    by (cases "duplicate_loop g base 0 dups [] s1")
  from run_resolved [OF src dups False loop] run obtain ident baseJson
    where "evs = Call (BaseProduct ident) (Inr baseJson) # evs1" by auto
  with duplicate_loop_creations [OF loop] show ?thesis by simp
qed

lemma run_creation_at:
  assumes src: "source_product g p s = Some (base, s1)"
    and dups: "duplicates p = Some dups"
    and run: "run (Some g) p s = (r, s', evs)"
    and k: "k < length (creations evs)"
  shows "k < length dups"
    and "fst (creations evs ! k) = (productInput base (dups ! k), media_argument base (dups ! k))"
proof -
  from run_creations [OF src dups run]
  have len: "length (creations evs) \<le> length dups"
    and eq: "map fst (creations evs)
           = map (\<lambda>d. (productInput base d, media_argument base d)) (take (length (creations evs)) dups)"
    by simp_all
  from k len show "k < length dups" by simp
  from k have "fst (creations evs ! k) = map fst (creations evs) ! k" by simp
  also from eq have "\<dots> = map (\<lambda>d. (productInput base d, media_argument base d))
       (take (length (creations evs)) dups) ! k" by simp
  also from k len have "\<dots> = (productInput base (dups ! k), media_argument base (dups ! k))"
    by simp
  finally show "fst (creations evs ! k) = (productInput base (dups ! k), media_argument base (dups ! k))" .
qed

lemma sample_reports_no_errors:
  "\<forall>req st. reports_no_errors (fst (sample_remote created_answer variants_answer req st))"
  by (simp add: sample_remote_def reports_no_errors_def created_answer_def variants_answer_def
      json_defs split: request.splits)

lemma sample_created_ids:
  "\<forall>pin media st. created_id (fst (sample_remote created_answer variants_answer
      (CreateProduct pin media) st)) \<noteq> None"
  by (simp add: sample_remote_def created_id_def created_answer_def json_defs string_of_nat.simps)

lemma sample_single_creation:
  "\<exists>r s' evs c.
     run (Some (sample_remote created_answer variants_answer)) (sample_params [d]) 0 = (r, s', evs)
   \<and> creations evs = [c]
   \<and> fst c = (productInput sample_base d, media_argument sample_base d)"
proof -
  let ?g = "sample_remote created_answer variants_answer"
  from duplicate_loop_returns [OF sample_reports_no_errors sample_created_ids, of sample_base 0 "[d]" "[]" 0]
  obtain ids s' evs where loop: "duplicate_loop ?g sample_base 0 [d] [] 0 = (Inr ids, s', evs)"
    by blast
  from duplicate_loop_ids [OF loop] have len: "length (creations evs) = 1" by simp
  then obtain c where c: "creations evs = [c]"
    by (cases "creations evs") simp_all
  from duplicate_loop_creations [OF loop] c
  have fc: "fst c = (productInput sample_base d, media_argument sample_base d)" by simp
  have dups: "duplicates (sample_params [d]) = Some [d]" by (simp add: sample_params_def)
  from run_resolved [OF sample_source dups _ loop] obtain ident baseJson
    where run: "run (Some ?g) (sample_params [d]) 0
       = (Inr \<lparr>productIds = ids, count = length ids\<rparr>, s', Call (BaseProduct ident) (Inr baseJson) # evs)"
    by auto
  from c have "creations (Call (BaseProduct ident) (Inr baseJson) # evs) = [c]" by simp
  with run fc show ?thesis by blast
qed

lemma trim_Nil: "trim [] = []"
  by (simp add: trim_def)

lemma productInput_title:
  "pi_title (productInput base dup) =
     (case title dup of
        None \<Rightarrow> base_title base
      | Some t \<Rightarrow> if trim t = [] then base_title base else trim t)"
  by (auto simp: productInput_def trim_Nil split: option.splits)

section \<open>Overrides of the scalar fields\<close>

text \<open>
  Claim C3, amended. In the creation request of every duplicate, the title is the title
  override with its surrounding white space removed when the override is present and not
  empty after trimming, and the title of the source otherwise; the description, the
  vendor and the product type are the override, as given, whenever the override is present
  (an empty or blank one included), and the value of the source when it is absent.
\<close>

theorem overrides_applied_field_by_field:
  assumes src: "source_product g p s = Some (base, s1)"
    and dups: "duplicates p = Some dups"
    and run: "run (Some g) p s = (r, s', evs)"
    and k: "k < length (creations evs)"
  shows "k < length dups
       \<and> pi_title (fst (fst (creations evs ! k))) =
           (case title (dups ! k) of
              None \<Rightarrow> base_title base
            | Some t \<Rightarrow> if trim t = [] then base_title base else trim t)
       \<and> pi_descriptionHtml (fst (fst (creations evs ! k))) =
           (case descriptionHtml (dups ! k) of
              None \<Rightarrow> base_descriptionHtml base
            | Some d \<Rightarrow> Some d)
       \<and> pi_vendor (fst (fst (creations evs ! k))) =
           (case vendor (dups ! k) of
              None \<Rightarrow> base_vendor base
            | Some v \<Rightarrow> Some v)
       \<and> pi_productType (fst (fst (creations evs ! k))) =
           (case productType (dups ! k) of
              None \<Rightarrow> base_productType base
            | Some t \<Rightarrow> Some t)"
proof -
  from run_creation_at [OF src dups run k]
  have kd: "k < length dups"
    and at: "fst (fst (creations evs ! k)) = productInput base (dups ! k)"
    by simp_all
  have "pi_descriptionHtml (productInput base (dups ! k)) =
           (case descriptionHtml (dups ! k) of None \<Rightarrow> base_descriptionHtml base | Some d \<Rightarrow> Some d)"
    "pi_vendor (productInput base (dups ! k)) =
           (case vendor (dups ! k) of None \<Rightarrow> base_vendor base | Some v \<Rightarrow> Some v)"
    "pi_productType (productInput base (dups ! k)) =
           (case productType (dups ! k) of None \<Rightarrow> base_productType base | Some t \<Rightarrow> Some t)"
    by (simp_all add: productInput_def nullish_def)
  with kd at productInput_title [of base "dups ! k"] show ?thesis by simp
qed

text \<open>
  The theorem on a run with two duplicates: the first overrides title and vendor, the
  second nothing.
\<close>

theorem overrides_applied_field_by_field_witness:
  "\<exists>r s' evs.
     run (Some (sample_remote created_answer variants_answer))
         (sample_params [spaced_title, no_overrides]) 0 = (r, s', evs)
   \<and> length (creations evs) = 2
   \<and> pi_title (fst (fst (creations evs ! 0))) = ''Cup''
   \<and> pi_vendor (fst (fst (creations evs ! 0))) = Some ''Bolt''
   \<and> pi_productType (fst (fst (creations evs ! 0))) = Some ''Kitchen''
   \<and> pi_title (fst (fst (creations evs ! 1))) = ''Mug''
   \<and> pi_vendor (fst (fst (creations evs ! 1))) = Some ''Acme''"
proof -
  let ?g = "sample_remote created_answer variants_answer"
  let ?p = "sample_params [spaced_title, no_overrides]"
  have dups: "duplicates ?p = Some [spaced_title, no_overrides]"
    by (simp add: sample_params_def)
  from duplicate_loop_returns [OF sample_reports_no_errors sample_created_ids,
      of sample_base 0 "[spaced_title, no_overrides]" "[]" 0]
  obtain ids s' evs1 where loop: "duplicate_loop ?g sample_base 0 [spaced_title, no_overrides] [] 0
      = (Inr ids, s', evs1)"
    by blast
  from duplicate_loop_ids [OF loop] have len1: "length (creations evs1) = 2" by simp
  from run_resolved [OF sample_source dups _ loop] obtain r evs
    where run: "run (Some ?g) ?p 0 = (r, s', evs)" and len: "length (creations evs) = 2"
    using len1 by auto
  from len have k0: "0 < length (creations evs)" and k1: "1 < length (creations evs)"
    by simp_all
  have trimmed: "trim '' Cup '' = ''Cup''"
    by (simp add: trim_def is_space_def)
  from overrides_applied_field_by_field [OF sample_source dups run k0]
  have first: "pi_title (fst (fst (creations evs ! 0))) = ''Cup''"
    "pi_vendor (fst (fst (creations evs ! 0))) = Some ''Bolt''"
    "pi_productType (fst (fst (creations evs ! 0))) = Some ''Kitchen''"
    by (simp_all add: spaced_title_def no_overrides_def sample_base_def trimmed)
  from overrides_applied_field_by_field [OF sample_source dups run k1]
  have second: "pi_title (fst (fst (creations evs ! 1))) = ''Mug''"
    "pi_vendor (fst (fst (creations evs ! 1))) = Some ''Acme''"
    by (simp_all add: no_overrides_def sample_base_def)
  from run len first second show ?thesis by blast
qed

text \<open>
  The claim as stated fails for the vendor: an override that is present but empty is sent,
  not the vendor of the source.
\<close>

theorem empty_vendor_override_counterexample:
  "\<exists>r s' evs c.
     run (Some (sample_remote created_answer variants_answer)) (sample_params [blank_vendor]) 0
       = (r, s', evs)
   \<and> creations evs = [c]
   \<and> vendor blank_vendor = Some []
   \<and> trim [] = []
   \<and> base_vendor sample_base = Some ''Acme''
   \<and> pi_vendor (fst (fst c)) = Some []"
proof -
  from sample_single_creation [of blank_vendor] obtain r s' evs c
    where run: "run (Some (sample_remote created_answer variants_answer))
                  (sample_params [blank_vendor]) 0 = (r, s', evs)"
      and c: "creations evs = [c]"
      and fc: "fst c = (productInput sample_base blank_vendor, media_argument sample_base blank_vendor)"
    by blast
  have v: "vendor blank_vendor = Some []"
    by (simp add: blank_vendor_def no_overrides_def)
  have b: "base_vendor sample_base = Some ''Acme''"
    by (simp add: sample_base_def)
  from fc v have s: "pi_vendor (fst (fst c)) = Some []"
    by (simp add: productInput_def nullish_def)
  from run c v trim_Nil b s show ?thesis by blast
qed

section \<open>Tags\<close>

lemma split_on_not_Nil: "split_on c s \<noteq> []"
  by (induction s) (auto split: list.splits)

lemma split_on_no_separator: "x \<in> set (split_on c s) \<Longrightarrow> c \<notin> set x"
proof (induction s arbitrary: x)
  case Nil
  then show ?case by simp
next
  case (Cons a s)
  show ?case
  proof (cases "a = c")
    case True
    with Cons show ?thesis by auto
  next
    case False
    obtain h t where ht: "split_on c s = h # t"
      using split_on_not_Nil [of c s] by (cases "split_on c s") auto
    with False Cons.prems have "x = a # h \<or> x \<in> set t" by simp
    with ht False Cons.IH show ?thesis by auto
  qed
qed

lemma set_trim: "set (trim s) \<subseteq> set s"
proof -
  have "set (trim s) = set (dropWhile is_space (rev (dropWhile is_space s)))"
    by (simp add: trim_def)
  also have "\<dots> \<subseteq> set (rev (dropWhile is_space s))"
    by (auto dest: set_dropWhileD)
  also have "\<dots> \<subseteq> set s"
    by (auto dest: set_dropWhileD)
  finally show ?thesis .
qed

lemma trim_idem: "trim (trim s) = trim s"
proof -
  let ?u = "dropWhile is_space s"
  let ?v = "dropWhile is_space (rev ?u)"
  have t: "trim s = rev ?v" by (simp add: trim_def)
  show ?thesis
  proof (cases "?v = []")
    case True
    have e: "trim s = []" unfolding t True by simp
    show ?thesis unfolding e by (simp add: trim_def)
  next
    case False
    then have hv: "\<not> is_space (hd ?v)" by (rule hd_dropWhile)
    have u: "?u \<noteq> []"
    proof
      assume a: "?u = []"
      have "?v = []" unfolding a by simp
      with False show False by contradiction
    qed
    then have hu: "\<not> is_space (hd ?u)" by (rule hd_dropWhile)
    have "?v = drop (length (takeWhile is_space (rev ?u))) (rev ?u)"
      by (rule dropWhile_eq_drop)
    moreover from False have "length (takeWhile is_space (rev ?u)) < length (rev ?u)"
      by (metis calculation drop_all not_le_imp_less)
    ultimately have "last ?v = last (rev ?u)"
      by (metis last_drop)
    with u have "last ?v = hd ?u" by (simp add: last_rev)
    with False hu have "\<not> is_space (hd (rev ?v))" by (simp add: hd_rev)
    with False have "dropWhile is_space (rev ?v) = rev ?v"
      by (simp add: dropWhile_eq_self_iff)
    moreover from hv have "dropWhile is_space ?v = ?v"
      by (simp add: dropWhile_eq_self_iff)
    ultimately have "trim (rev ?v) = rev ?v"
      by (simp add: trim_def)
    with t show ?thesis by simp
  qed
qed

lemma productInput_tags:
  "pi_tags (productInput base dup) =
     (case tags dup of
        None \<Rightarrow> (case base_tags base of None \<Rightarrow> [] | Some ts \<Rightarrow> ts)
      | Some (TagArray ts) \<Rightarrow> ts
      | Some (TagString str) \<Rightarrow> filter (\<lambda>t. t \<noteq> []) (map trim (split_on CHR '','' str)))"
  by (simp add: productInput_def split: option.splits tags_value.splits)

lemma string_tags_tidy:
  assumes "t \<in> set (filter (\<lambda>t. t \<noteq> []) (map trim (split_on CHR '','' str)))"
  shows "t \<noteq> [] \<and> trim t = t \<and> CHR '','' \<notin> set t"
proof -
  from assms obtain x where x: "x \<in> set (split_on CHR '','' str)" and t: "t = trim x" "t \<noteq> []"
    by auto
  from split_on_no_separator [OF x] set_trim [of x] t have "CHR '','' \<notin> set t" by auto
  with t trim_idem [of x] show ?thesis by simp
qed

lemma sample_run:
  assumes "dups \<noteq> []"
  shows "\<exists>r s' evs.
     run (Some (sample_remote created_answer variants_answer)) (sample_params dups) 0 = (r, s', evs)
   \<and> length (creations evs) = length dups"
proof -
  let ?g = "sample_remote created_answer variants_answer"
  from duplicate_loop_returns [OF sample_reports_no_errors sample_created_ids, of sample_base 0 dups "[]" 0]
  obtain ids s' evs where loop: "duplicate_loop ?g sample_base 0 dups [] 0 = (Inr ids, s', evs)"
    by blast
  from duplicate_loop_ids [OF loop] have len: "length (creations evs) = length dups" by simp
  have dups: "duplicates (sample_params dups) = Some dups" by (simp add: sample_params_def)
  from run_resolved [OF sample_source dups assms loop] obtain ident baseJson
    where run: "run (Some ?g) (sample_params dups) 0
       = (Inr \<lparr>productIds = ids, count = length ids\<rparr>, s', Call (BaseProduct ident) (Inr baseJson) # evs)"
    by auto
  from len have "length (creations (Call (BaseProduct ident) (Inr baseJson) # evs)) = length dups"
    by simp
  with run show ?thesis by blast
qed

text \<open>
  Claim C7, amended. In the creation request of every duplicate: a tags override given as
  an array is sent as it is, entry by entry, whatever the tags of the source (the empty
  array gives no tags); a tags override given as a string is split at its commas, the
  pieces trimmed and the empty ones dropped, so every tag sent is non-empty, trimmed and
  free of commas; and without an override the tags of the source are sent.
\<close>

theorem tags_override_replaces_source_tags:
  assumes src: "source_product g p s = Some (base, s1)"
    and dups: "duplicates p = Some dups"
    and run: "run (Some g) p s = (r, s', evs)"
    and k: "k < length (creations evs)"
  shows "k < length dups
       \<and> (\<forall>ts. tags (dups ! k) = Some (TagArray ts) \<longrightarrow>
             pi_tags (fst (fst (creations evs ! k))) = ts)
       \<and> (\<forall>str. tags (dups ! k) = Some (TagString str) \<longrightarrow>
             pi_tags (fst (fst (creations evs ! k)))
               = filter (\<lambda>t. t \<noteq> []) (map trim (split_on CHR '','' str))
           \<and> (\<forall>t \<in> set (pi_tags (fst (fst (creations evs ! k)))).
                 t \<noteq> [] \<and> trim t = t \<and> CHR '','' \<notin> set t))
       \<and> (tags (dups ! k) = None \<longrightarrow>
             pi_tags (fst (fst (creations evs ! k)))
               = (case base_tags base of None \<Rightarrow> [] | Some ts \<Rightarrow> ts))"
proof -
  from run_creation_at [OF src dups run k]
  have kd: "k < length dups"
    and at: "fst (fst (creations evs ! k)) = productInput base (dups ! k)"
    by simp_all
  have arr: "\<forall>ts. tags (dups ! k) = Some (TagArray ts) \<longrightarrow>
             pi_tags (fst (fst (creations evs ! k))) = ts"
    by (simp add: at productInput_tags)
  have str: "\<forall>str. tags (dups ! k) = Some (TagString str) \<longrightarrow>
             pi_tags (fst (fst (creations evs ! k)))
               = filter (\<lambda>t. t \<noteq> []) (map trim (split_on CHR '','' str))
           \<and> (\<forall>t \<in> set (pi_tags (fst (fst (creations evs ! k)))).
                 t \<noteq> [] \<and> trim t = t \<and> CHR '','' \<notin> set t)"
  proof (intro allI impI)
    fix str
    assume "tags (dups ! k) = Some (TagString str)"
    then have eq: "pi_tags (fst (fst (creations evs ! k)))
               = filter (\<lambda>t. t \<noteq> []) (map trim (split_on CHR '','' str))"
      by (simp add: at productInput_tags)
    then show "pi_tags (fst (fst (creations evs ! k)))
               = filter (\<lambda>t. t \<noteq> []) (map trim (split_on CHR '','' str))
           \<and> (\<forall>t \<in> set (pi_tags (fst (fst (creations evs ! k)))).
                 t \<noteq> [] \<and> trim t = t \<and> CHR '','' \<notin> set t)"
      using string_tags_tidy [of _ str] by metis
  qed
  have none: "tags (dups ! k) = None \<longrightarrow>
             pi_tags (fst (fst (creations evs ! k)))
               = (case base_tags base of None \<Rightarrow> [] | Some ts \<Rightarrow> ts)"
    by (simp add: at productInput_tags)
  from kd arr str none show ?thesis by (intro conjI)
qed

text \<open>
  The theorem on a run with three duplicates: tags as a string, an empty array, and no
  override.
\<close>

theorem tags_override_replaces_source_tags_witness:
  "\<exists>r s' evs.
     run (Some (sample_remote created_answer variants_answer))
         (sample_params [string_tags, no_tags, no_overrides]) 0 = (r, s', evs)
   \<and> length (creations evs) = 3
   \<and> pi_tags (fst (fst (creations evs ! 0))) = [''red'', ''big'']
   \<and> pi_tags (fst (fst (creations evs ! 1))) = []
   \<and> pi_tags (fst (fst (creations evs ! 2))) = [''cup'', ''blue'']"
proof -
  let ?g = "sample_remote created_answer variants_answer"
  let ?dups = "[string_tags, no_tags, no_overrides]"
  have dups: "duplicates (sample_params ?dups) = Some ?dups"
    by (simp add: sample_params_def)
  from sample_run [of ?dups] obtain r s' evs
    where run: "run (Some ?g) (sample_params ?dups) 0 = (r, s', evs)"
      and len: "length (creations evs) = 3"
    by auto
  from len have k: "0 < length (creations evs)" "1 < length (creations evs)"
    "2 < length (creations evs)" by simp_all
  have pieces: "filter (\<lambda>t. t \<noteq> []) (map trim (split_on CHR '','' ''red, , big,'')) = [''red'', ''big'']"
    by (simp add: trim_def is_space_def)
  have g0: "tags (?dups ! 0) = Some (TagString ''red, , big,'')"
    by (simp add: string_tags_def no_overrides_def)
  have g1: "tags (?dups ! 1) = Some (TagArray [])"
    by (simp add: no_tags_def no_overrides_def)
  have g2: "tags (?dups ! 2) = None"
    by (simp add: no_overrides_def)
  note th0 = tags_override_replaces_source_tags [OF sample_source dups run k(1)]
  note th1 = tags_override_replaces_source_tags [OF sample_source dups run k(2)]
  note th2 = tags_override_replaces_source_tags [OF sample_source dups run k(3)]
  from th0 [THEN conjunct2, THEN conjunct2, THEN conjunct1, THEN spec, THEN mp, OF g0, THEN conjunct1]
  have t0: "pi_tags (fst (fst (creations evs ! 0))) = [''red'', ''big'']"
    by (simp only: pieces)
  from th1 [THEN conjunct2, THEN conjunct1, THEN spec, THEN mp, OF g1]
  have t1: "pi_tags (fst (fst (creations evs ! 1))) = []" .
  have bt: "(case base_tags sample_base of None \<Rightarrow> [] | Some ts \<Rightarrow> ts) = [''cup'', ''blue'']"
    by (simp add: sample_base_def)
  from th2 [THEN conjunct2, THEN conjunct2, THEN conjunct2, THEN mp, OF g2]
  have t2: "pi_tags (fst (fst (creations evs ! 2))) = [''cup'', ''blue'']"
    by (simp only: bt)
  from run len t0 t1 t2 show ?thesis by blast
qed

text \<open>
  The claim as stated fails for the array: its entries are neither trimmed nor dropped
  when empty.
\<close>

theorem array_tags_sent_as_given_counterexample:
  "\<exists>r s' evs c.
     run (Some (sample_remote created_answer variants_answer)) (sample_params [untidy_tags]) 0
       = (r, s', evs)
   \<and> creations evs = [c]
   \<and> tags untidy_tags = Some (TagArray ['' a '', []])
   \<and> pi_tags (fst (fst c)) = ['' a '', []]
   \<and> trim '' a '' \<noteq> '' a ''"
proof -
  from sample_single_creation [of untidy_tags] obtain r s' evs c
    where run: "run (Some (sample_remote created_answer variants_answer))
                  (sample_params [untidy_tags]) 0 = (r, s', evs)"
      and c: "creations evs = [c]"
      and fc: "fst c = (productInput sample_base untidy_tags, media_argument sample_base untidy_tags)"
    by blast
  have t: "tags untidy_tags = Some (TagArray ['' a '', []])"
    by (simp add: untidy_tags_def no_overrides_def)
  from fc t have s: "pi_tags (fst (fst c)) = ['' a '', []]"
    by (simp add: productInput_tags)
  have n: "trim '' a '' \<noteq> '' a ''"
    by (simp add: trim_def is_space_def)
  from run c t s n show ?thesis by blast
qed

section \<open>Media\<close>

lemma if_truthy_or_else:
  "if_truthy (or_else a b) = (case if_truthy a of Some u \<Rightarrow> Some u | None \<Rightarrow> if_truthy b)"
  by (simp add: or_else_def truthy_def split: option.splits)

lemma collect_image_urls_entries:
  "collect_image_urls nodes acc =
     acc @ List.map_filter spec_image_url
             (filter (\<lambda>node. mediaContentType node = Some ''IMAGE'') nodes)"
proof (induction nodes arbitrary: acc)
  case Nil
  show ?case by (simp add: map_filter_simps)
next
  case (Cons node nodes)
  show ?case
    by (cases "if_truthy (image_url node)"; cases "if_truthy (preview_image_url node)")
       (simp_all add: Cons.IH map_filter_simps spec_image_url_def if_truthy_or_else)
qed

lemma baseImageUrls_entries: "baseImageUrls base = image_entry_urls base"
  by (simp add: baseImageUrls_def image_entry_urls_def collect_image_urls_entries)

text \<open>
  Claim C6, amended. For every duplicate whose \<open>imageUrls\<close> is absent or empty, the media
  sent with its creation request are the image URLs of the source's media entries of
  content type \<open>IMAGE\<close> (per entry the primary image URL, else the preview image URL), in
  the order of the source's media, cut to the first 50; when there is none the request
  carries no media.
\<close>

theorem source_images_when_no_image_override:
  assumes src: "source_product g p s = Some (base, s1)"
    and dups: "duplicates p = Some dups"
    and run: "run (Some g) p s = (r, s', evs)"
    and k: "k < length (creations evs)"
    and none: "imageUrls (dups ! k) = None \<or> imageUrls (dups ! k) = Some []"
  shows "k < length dups
       \<and> snd (fst (creations evs ! k)) =
           (if image_entry_urls base = [] then None
            else Some (map (\<lambda>u. \<lparr>originalSource = u, mi_mediaContentType = ''IMAGE''\<rparr>)
                           (take 50 (image_entry_urls base))))"
proof -
  from run_creation_at [OF src dups run k]
  have kd: "k < length dups"
    and at: "snd (fst (creations evs ! k)) = media_argument base (dups ! k)"
    by simp_all
  from none have "mediaUrls base (dups ! k) = image_entry_urls base"
    by (auto simp: mediaUrls_def baseImageUrls_entries)
  then have "media_argument base (dups ! k) =
           (if image_entry_urls base = [] then None
            else Some (map (\<lambda>u. \<lparr>originalSource = u, mi_mediaContentType = ''IMAGE''\<rparr>)
                           (take 50 (image_entry_urls base))))"
    by (simp add: media_argument_def mediaInput_def)
  with kd at show ?thesis by simp
qed

lemma sample_image_entries:
  "image_entry_urls sample_base = [''https://cdn/a.png'', ''https://cdn/b.png'']"
  by (simp add: image_entry_urls_def sample_base_def map_filter_simps spec_image_url_def
      if_truthy_def)

text \<open>
  The theorem on a run with two duplicates, one without \<open>imageUrls\<close> and one with the
  empty list; the source has two images around a video.
\<close>

theorem source_images_when_no_image_override_witness:
  "\<exists>r s' evs.
     run (Some (sample_remote created_answer variants_answer))
         (sample_params [no_overrides, no_images]) 0 = (r, s', evs)
   \<and> length (creations evs) = 2
   \<and> snd (fst (creations evs ! 0)) =
        Some [\<lparr>originalSource = ''https://cdn/a.png'', mi_mediaContentType = ''IMAGE''\<rparr>,
              \<lparr>originalSource = ''https://cdn/b.png'', mi_mediaContentType = ''IMAGE''\<rparr>]
   \<and> snd (fst (creations evs ! 1)) =
        Some [\<lparr>originalSource = ''https://cdn/a.png'', mi_mediaContentType = ''IMAGE''\<rparr>,
              \<lparr>originalSource = ''https://cdn/b.png'', mi_mediaContentType = ''IMAGE''\<rparr>]"
proof -
  let ?g = "sample_remote created_answer variants_answer"
  let ?dups = "[no_overrides, no_images]"
  have dups: "duplicates (sample_params ?dups) = Some ?dups"
    by (simp add: sample_params_def)
  from sample_run [of ?dups] obtain r s' evs
    where run: "run (Some ?g) (sample_params ?dups) 0 = (r, s', evs)"
      and len: "length (creations evs) = 2"
    by auto
  from len have k: "0 < length (creations evs)" "1 < length (creations evs)" by simp_all
  have n0: "imageUrls (?dups ! 0) = None \<or> imageUrls (?dups ! 0) = Some []"
    by (simp add: no_overrides_def)
  have n1: "imageUrls (?dups ! 1) = None \<or> imageUrls (?dups ! 1) = Some []"
    by (simp add: no_images_def no_overrides_def)
  from source_images_when_no_image_override [OF sample_source dups run k(1) n0]
    sample_image_entries
  have m0: "snd (fst (creations evs ! 0)) =
        Some [\<lparr>originalSource = ''https://cdn/a.png'', mi_mediaContentType = ''IMAGE''\<rparr>,
              \<lparr>originalSource = ''https://cdn/b.png'', mi_mediaContentType = ''IMAGE''\<rparr>]"
    by simp
  from source_images_when_no_image_override [OF sample_source dups run k(2) n1]
    sample_image_entries
  have m1: "snd (fst (creations evs ! 1)) =
        Some [\<lparr>originalSource = ''https://cdn/a.png'', mi_mediaContentType = ''IMAGE''\<rparr>,
              \<lparr>originalSource = ''https://cdn/b.png'', mi_mediaContentType = ''IMAGE''\<rparr>]"
    by simp
  from run len m0 m1 show ?thesis by blast
qed

text \<open>
  The claim as stated fails for a media entry that is not an image: the sample's video has
  a preview image, which the specification's list holds and the creation request does not.
\<close>

theorem video_preview_not_sent_counterexample:
  "\<exists>r s' evs c.
     run (Some (sample_remote created_answer variants_answer)) (sample_params [no_overrides]) 0
       = (r, s', evs)
   \<and> creations evs = [c]
   \<and> imageUrls no_overrides = None
   \<and> spec_image_urls sample_base
        = [''https://cdn/a.png'', ''https://cdn/v.png'', ''https://cdn/b.png'']
   \<and> snd (fst c) =
        Some [\<lparr>originalSource = ''https://cdn/a.png'', mi_mediaContentType = ''IMAGE''\<rparr>,
              \<lparr>originalSource = ''https://cdn/b.png'', mi_mediaContentType = ''IMAGE''\<rparr>]"
proof -
  from sample_single_creation [of no_overrides] obtain r s' evs c
    where run: "run (Some (sample_remote created_answer variants_answer))
                  (sample_params [no_overrides]) 0 = (r, s', evs)"
      and c: "creations evs = [c]"
      and fc: "fst c = (productInput sample_base no_overrides, media_argument sample_base no_overrides)"
    by blast
  have i: "imageUrls no_overrides = None"
    by (simp add: no_overrides_def)
  have sp: "spec_image_urls sample_base
        = [''https://cdn/a.png'', ''https://cdn/v.png'', ''https://cdn/b.png'']"
    by (simp add: spec_image_urls_def sample_base_def map_filter_simps spec_image_url_def
        if_truthy_def)
  from i have "mediaUrls sample_base no_overrides = image_entry_urls sample_base"
    by (simp add: mediaUrls_def baseImageUrls_entries)
  with fc sample_image_entries have m: "snd (fst c) =
        Some [\<lparr>originalSource = ''https://cdn/a.png'', mi_mediaContentType = ''IMAGE''\<rparr>,
              \<lparr>originalSource = ''https://cdn/b.png'', mi_mediaContentType = ''IMAGE''\<rparr>]"
    by (simp add: media_argument_def mediaInput_def)
  from run c i sp m show ?thesis by blast
qed

section \<open>The upload step without local files\<close>

lemma allFiles_Nil:
  assumes "\<forall>r \<in> set rows. imageFiles r = []"
  shows "allFiles rows = []"
proof -
  have "\<forall>x \<in> set (enumerate 0 rows). imageFiles (snd x) = []"
    using assms by (auto simp: in_set_enumerate_eq)
  then show ?thesis
    by (auto simp: allFiles_def split: prod.splits)
qed

text \<open>
  Claim C9. When every row's list of local image files is empty, the client's upload step
  returns the empty list, leaves the remote's state as it was and adds no event: the
  staging action is not invoked, whatever the client holds.
\<close>

theorem no_files_no_staging_call:
  assumes "\<forall>r \<in> set rows. imageFiles r = []"
  shows "uploadImagesIfNeeded client fetch order rows s = (Inr [], s, [])"
  using allFiles_Nil [OF assms] by (simp add: uploadImagesIfNeeded_def)

text \<open>The theorem on two rows without local files.\<close>

theorem no_files_no_staging_call_witness:
  "map imageFiles rows_without_files = [[], []]
   \<and> uploadImagesIfNeeded (ActionWithRun (remote_prepareImageUploads (Some short_stager)))
         no_fetch [] rows_without_files 0 = (Inr [], 0, [])"
proof -
  have e: "\<forall>r \<in> set rows_without_files. imageFiles r = []"
    by (simp add: rows_without_files_def)
  have m: "map imageFiles rows_without_files = [[], []]"
    by (simp add: rows_without_files_def)
  from no_files_no_staging_call [OF e] m show ?thesis by simp
qed

section \<open>Staged targets and their number\<close>

lemma prepareImageUploads_answered:
  assumes files: "files \<noteq> []"
    and answer: "g (StagedUploads (stagedUploadsInput files)) s = (Inr json, s')"
  shows "prepareImageUploads (Some g) (Some files) s =
           (if has_errors (userErrors_of sp_userErrors (as_staged json))
            then Inl (Error (error_messages (userErrors_of sp_userErrors (as_staged json))))
            else Inr (stagedTargets_of json),
            s', [Call (StagedUploads (stagedUploadsInput files)) (Inr json)])"
  using assms by (simp add: prepareImageUploads_def call_def then_do_Inr)

lemma reqFiles_Nil: "reqFiles fs = [] \<longleftrightarrow> fs = []"
  by (simp add: reqFiles_def)

lemma sample_files: "length (allFiles rows_with_files) = 3"
  by (simp add: allFiles_def rows_with_files_def enumerate_eq_zip upt_rec)

lemma short_stager_answer:
  "short_stager (StagedUploads inputs) 0 =
     (Inr (StagedJson
        \<lparr>mj_payload = Some \<lparr>sp_stagedTargets = Some [one_target], sp_userErrors = Some []\<rparr>,
         mj_errors = None, mj_data = None\<rparr>), 0)"
  by (simp add: short_stager_def)

lemma refusing_stager_answer:
  "refusing_stager (StagedUploads inputs) 0 =
     (Inr (StagedJson
        \<lparr>mj_payload = Some \<lparr>sp_stagedTargets = None,
                            sp_userErrors = Some [\<lparr>message = ''File is too large''\<rparr>]\<rparr>,
         mj_errors = None, mj_data = None\<rparr>), 0)"
  by (simp add: refusing_stager_def)

text \<open>
  Claim C2, amended. For every non-empty list of file descriptors and every answer of the
  remote to \<open>stagedUploadsCreate\<close>: the action throws the error built from the messages
  when the answer reports \<open>userErrors\<close>, and otherwise returns the staged targets of the
  answer, whatever their number. The client's upload step, calling the action with the
  descriptors of its files, throws that same error in the first case; in the second it
  throws the error \<open>Staged uploads count mismatch\<close>, a fixed message, when the number of
  targets differs from the number of files, after the one staging call and before any
  upload, and goes on to the uploads only when the numbers agree.
\<close>

theorem count_mismatch_is_the_clients_error:
  assumes files: "files \<noteq> []"
    and answer: "g (StagedUploads (stagedUploadsInput files)) s = (Inr json, s')"
  shows "prepareImageUploads (Some g) (Some files) s =
           (if has_errors (userErrors_of sp_userErrors (as_staged json))
            then Inl (Error (error_messages (userErrors_of sp_userErrors (as_staged json))))
            else Inr (stagedTargets_of json),
            s', [Call (StagedUploads (stagedUploadsInput files)) (Inr json)])
       \<and> (\<forall>client rows fetch order.
             (client = ActionWithRun (remote_prepareImageUploads (Some g))
              \<or> client = ActionFunction (remote_prepareImageUploads (Some g)))
             \<and> files = reqFiles (allFiles rows) \<longrightarrow>
             uploadImagesIfNeeded client fetch order rows s =
               (if has_errors (userErrors_of sp_userErrors (as_staged json))
                then Inl (Error (error_messages (userErrors_of sp_userErrors (as_staged json))))
                else if length (stagedTargets_of json) \<noteq> length (allFiles rows)
                then Inl (Error ''Staged uploads count mismatch'')
                else upload_all fetch (stagedTargets_of json) (allFiles rows) order
                       (map (\<lambda>(i, r). (i, [])) (enumerate 0 rows)),
                s',
                Call (StagedUploads (stagedUploadsInput files)) (Inr json) #
                (if has_errors (userErrors_of sp_userErrors (as_staged json))
                    \<or> length (stagedTargets_of json) \<noteq> length (allFiles rows)
                 then []
                 else map (\<lambda>(t, (i, f)). Fetch (url t) (form_of t f) (file_name f))
                          (zip (stagedTargets_of json) (allFiles rows)))))"
proof (intro conjI allI impI)
  note prep = prepareImageUploads_answered [where g = g and s = s, OF files answer]
  show "prepareImageUploads (Some g) (Some files) s =
           (if has_errors (userErrors_of sp_userErrors (as_staged json))
            then Inl (Error (error_messages (userErrors_of sp_userErrors (as_staged json))))
            else Inr (stagedTargets_of json),
            s', [Call (StagedUploads (stagedUploadsInput files)) (Inr json)])"
    by (rule prep)
  fix client :: "'a api_client" and rows fetch order
  assume h: "(client = ActionWithRun (remote_prepareImageUploads (Some g))
              \<or> client = ActionFunction (remote_prepareImageUploads (Some g)))
             \<and> files = reqFiles (allFiles rows)"
  then have fr: "files = reqFiles (allFiles rows)" by simp
  with files have nonempty: "allFiles rows \<noteq> []" by (auto simp: reqFiles_Nil)
  have act: "(case client of
             ActionWithRun act \<Rightarrow> act (reqFiles (allFiles rows)) s
           | ActionFunction act \<Rightarrow> act (reqFiles (allFiles rows)) s
           | ActionMissing \<Rightarrow>
               (Inl (Error ''prepareImageUploads action not available in client''), s, []))
        = remote_prepareImageUploads (Some g) files s"
    using h by auto
  show "uploadImagesIfNeeded client fetch order rows s =
               (if has_errors (userErrors_of sp_userErrors (as_staged json))
                then Inl (Error (error_messages (userErrors_of sp_userErrors (as_staged json))))
                else if length (stagedTargets_of json) \<noteq> length (allFiles rows)
                then Inl (Error ''Staged uploads count mismatch'')
                else upload_all fetch (stagedTargets_of json) (allFiles rows) order
                       (map (\<lambda>(i, r). (i, [])) (enumerate 0 rows)),
                s',
                Call (StagedUploads (stagedUploadsInput files)) (Inr json) #
                (if has_errors (userErrors_of sp_userErrors (as_staged json))
                    \<or> length (stagedTargets_of json) \<noteq> length (allFiles rows)
                 then []
                 else map (\<lambda>(t, (i, f)). Fetch (url t) (form_of t f) (file_name f))
                          (zip (stagedTargets_of json) (allFiles rows))))"
  proof (cases "has_errors (userErrors_of sp_userErrors (as_staged json))")
    case True
    with prep have "remote_prepareImageUploads (Some g) files s =
        (Inl (Error (error_messages (userErrors_of sp_userErrors (as_staged json)))), s',
         [Call (StagedUploads (stagedUploadsInput files)) (Inr json)])"
      by (simp add: remote_prepareImageUploads_def then_do_Inl)
    with True nonempty act show ?thesis
      by (simp add: uploadImagesIfNeeded_def then_do_Inl)
  next
    case False
    with prep have "remote_prepareImageUploads (Some g) files s =
        (Inr (Some (stagedTargets_of json)), s',
         [Call (StagedUploads (stagedUploadsInput files)) (Inr json)])"
      by (simp add: remote_prepareImageUploads_def then_do_Inr)
    with False nonempty act show ?thesis
      by (simp add: uploadImagesIfNeeded_def then_do_Inr Let_def)
  qed
qed

text \<open>
  The theorem on three local files: against a remote that stages one target, and against
  one that refuses.
\<close>

theorem count_mismatch_is_the_clients_error_witness:
  "length (allFiles rows_with_files) = 3
   \<and> (\<exists>evs. prepareImageUploads (Some short_stager) (Some (reqFiles (allFiles rows_with_files))) 0
               = (Inr [one_target], 0, evs)
           \<and> uploadImagesIfNeeded (ActionWithRun (remote_prepareImageUploads (Some short_stager)))
                no_fetch [0, 1, 2] rows_with_files 0
               = (Inl (Error ''Staged uploads count mismatch''), 0, evs))
   \<and> (\<exists>evs. prepareImageUploads (Some refusing_stager) (Some (reqFiles (allFiles rows_with_files))) 0
               = (Inl (Error ''File is too large''), 0, evs)
           \<and> uploadImagesIfNeeded (ActionFunction (remote_prepareImageUploads (Some refusing_stager)))
                no_fetch [0, 1, 2] rows_with_files 0
               = (Inl (Error ''File is too large''), 0, evs))"
proof -
  let ?files = "reqFiles (allFiles rows_with_files)"
  let ?short = "StagedJson
        \<lparr>mj_payload = Some \<lparr>sp_stagedTargets = Some [one_target], sp_userErrors = Some []\<rparr>,
         mj_errors = None, mj_data = None\<rparr>"
  let ?refused = "StagedJson
        \<lparr>mj_payload = Some \<lparr>sp_stagedTargets = None,
                            sp_userErrors = Some [\<lparr>message = ''File is too large''\<rparr>]\<rparr>,
         mj_errors = None, mj_data = None\<rparr>"
  from sample_files have files: "?files \<noteq> []" by (auto simp: reqFiles_Nil)
  have c1: "(ActionWithRun (remote_prepareImageUploads (Some short_stager))
              = ActionWithRun (remote_prepareImageUploads (Some short_stager))
          \<or> ActionWithRun (remote_prepareImageUploads (Some short_stager))
              = ActionFunction (remote_prepareImageUploads (Some short_stager)))
          \<and> ?files = reqFiles (allFiles rows_with_files)"
    by simp
  have c2: "(ActionFunction (remote_prepareImageUploads (Some refusing_stager))
              = ActionWithRun (remote_prepareImageUploads (Some refusing_stager))
          \<or> ActionFunction (remote_prepareImageUploads (Some refusing_stager))
              = ActionFunction (remote_prepareImageUploads (Some refusing_stager)))
          \<and> ?files = reqFiles (allFiles rows_with_files)"
    by simp
  have short: "\<not> has_errors (userErrors_of sp_userErrors (as_staged ?short))"
    "length (stagedTargets_of ?short) \<noteq> length (allFiles rows_with_files)"
    "stagedTargets_of ?short = [one_target]"
    by (simp_all add: sample_files stagedTargets_of_def json_defs)
  have refused: "has_errors (userErrors_of sp_userErrors (as_staged ?refused))"
    "error_messages (userErrors_of sp_userErrors (as_staged ?refused)) = ''File is too large''"
    by (simp_all add: json_defs)
  note a = count_mismatch_is_the_clients_error [where g = short_stager and s = 0,
      OF files short_stager_answer]
  note b = count_mismatch_is_the_clients_error [where g = refusing_stager and s = 0,
      OF files refusing_stager_answer]
  note a1 = a [THEN conjunct1]
  note a2 = a [THEN conjunct2, THEN spec, THEN spec, THEN spec, THEN spec, THEN mp, OF c1,
      of no_fetch "[0, 1, 2]"]
  note b1 = b [THEN conjunct1]
  note b2 = b [THEN conjunct2, THEN spec, THEN spec, THEN spec, THEN spec, THEN mp, OF c2,
      of no_fetch "[0, 1, 2]"]
  from a1 a2 short have A: "\<exists>evs. prepareImageUploads (Some short_stager) (Some ?files) 0
               = (Inr [one_target], 0, evs)
           \<and> uploadImagesIfNeeded (ActionWithRun (remote_prepareImageUploads (Some short_stager)))
                no_fetch [0, 1, 2] rows_with_files 0
               = (Inl (Error ''Staged uploads count mismatch''), 0, evs)"
    by simp
  from b1 b2 refused have B: "\<exists>evs. prepareImageUploads (Some refusing_stager) (Some ?files) 0
               = (Inl (Error ''File is too large''), 0, evs)
           \<and> uploadImagesIfNeeded (ActionFunction (remote_prepareImageUploads (Some refusing_stager)))
                no_fetch [0, 1, 2] rows_with_files 0
               = (Inl (Error ''File is too large''), 0, evs)"
    by simp
  from sample_files A B show ?thesis by (intro conjI)
qed

text \<open>
  The claim as stated fails for the action: asked for three targets and answered one, it
  returns that one target and throws nothing.
\<close>

theorem stager_returns_fewer_targets_counterexample:
  "\<exists>targets s' evs.
     prepareImageUploads (Some short_stager) (Some (reqFiles (allFiles rows_with_files))) 0
       = (Inr targets, s', evs)
   \<and> length targets = 1
   \<and> length (reqFiles (allFiles rows_with_files)) = 3"
proof -
  let ?short = "StagedJson
        \<lparr>mj_payload = Some \<lparr>sp_stagedTargets = Some [one_target], sp_userErrors = Some []\<rparr>,
         mj_errors = None, mj_data = None\<rparr>"
  have n: "length (reqFiles (allFiles rows_with_files)) = 3"
    by (simp add: reqFiles_def sample_files)
  then have rf: "reqFiles (allFiles rows_with_files) \<noteq> []" by auto
  have noerr: "\<not> has_errors (userErrors_of sp_userErrors (as_staged ?short))"
    by (simp add: json_defs)
  have targets: "stagedTargets_of ?short = [one_target]"
    by (simp add: stagedTargets_of_def json_defs)
  from prepareImageUploads_answered [where g = short_stager and s = 0, OF rf short_stager_answer]
    noerr targets
  have "prepareImageUploads (Some short_stager) (Some (reqFiles (allFiles rows_with_files))) 0
       = (Inr [one_target], 0,
          [Call (StagedUploads (stagedUploadsInput (reqFiles (allFiles rows_with_files)))) (Inr ?short)])"
    by simp
  moreover have "length [one_target] = 1" by simp
  ultimately show ?thesis using n by blast
qed

section \<open>The calls of a run and their answers\<close>

lemma update_price_answers:
  assumes "update_price g pid vid pr failed s = (r, s', evs)"
  shows "\<forall>req a. Call req a \<in> set evs \<longrightarrow> (\<exists>st. a = fst (g req st))"
  using update_price_result(2) [OF assms] by auto

lemma override_first_created_answers:
  assumes "override_first_created g dup pid vcJson s = (r, s', evs)"
  shows "\<forall>req a. Call req a \<in> set evs \<longrightarrow> (\<exists>st. a = fst (g req st))"
  using assms
  by (auto simp: override_first_created_def split: option.splits dest!: update_price_answers)

lemma override_standalone_answers:
  assumes "override_standalone g dup created pid s = (r, s', evs)"
  shows "\<forall>req a. Call req a \<in> set evs \<longrightarrow> (\<exists>st. a = fst (g req st))"
  using assms
  by (auto simp: override_standalone_def split: option.splits dest!: update_price_answers)

lemma after_bulk_create_answers:
  assumes "after_bulk_create g dup pid vcJson s = (r, s', evs)"
  shows "\<forall>req a. Call req a \<in> set evs \<longrightarrow> (\<exists>st. a = fst (g req st))"
  using assms
  by (auto simp: after_bulk_create_def split: if_splits dest!: override_first_created_answers)

lemma then_do_answers:
  assumes step: "then_do m f = (r, s', evs)"
    and first: "\<And>a s1 evs1. m = (a, s1, evs1) \<Longrightarrow>
                  \<forall>req b. Call req b \<in> set evs1 \<longrightarrow> (\<exists>st. b = fst (g req st))"
    and rest: "\<And>a s1 r2 s2 evs2. f a s1 = (r2, s2, evs2) \<Longrightarrow>
                  \<forall>req b. Call req b \<in> set evs2 \<longrightarrow> (\<exists>st. b = fst (g req st))"
  shows "\<forall>req b. Call req b \<in> set evs \<longrightarrow> (\<exists>st. b = fst (g req st))"
  using then_do_result [OF step]
proof (elim disjE exE conjE)
  fix e
  assume "m = (Inl e, s', evs)"
  from first [OF this] show ?thesis .
next
  fix a s1 evs1 evs2
  assume m: "m = (Inr a, s1, evs1)" and f: "f a s1 = (r, s', evs2)" and evs: "evs = evs1 @ evs2"
  from first [OF m] rest [OF f] evs show ?thesis by auto
qed

lemma call_answers:
  assumes "call g req s = (a, s1, evs1)"
  shows "\<forall>req b. Call req b \<in> set evs1 \<longrightarrow> (\<exists>st. b = fst (g req st))"
  using call_result [OF assms] by auto

lemma replicate_variants_answers:
  assumes "replicate_variants g base dup created pid s = (r, s', evs)"
  shows "\<forall>req a. Call req a \<in> set evs \<longrightarrow> (\<exists>st. a = fst (g req st))"
proof (cases "0 < length (baseVariants base)")
  case True
  with assms have "then_do (call g (CreateVariants pid (variantsInput (baseVariants base) created)
                           ''REMOVE_STANDALONE_VARIANT'') s) (after_bulk_create g dup pid) = (r, s', evs)"
    by (simp add: replicate_variants_def)
  then show ?thesis
    by (rule then_do_answers) (erule call_answers, erule after_bulk_create_answers)
next
  case False
  with assms show ?thesis
    by (simp add: replicate_variants_def override_standalone_answers)
qed

lemma after_product_create_answers:
  assumes "after_product_create g base idx dup createJson s = (r, s', evs)"
  shows "\<forall>req a. Call req a \<in> set evs \<longrightarrow> (\<exists>st. a = fst (g req st))"
proof (cases "has_errors (userErrors_of cpl_userErrors (as_create createJson))")
  case True
  with assms show ?thesis by (auto simp: after_product_create_def)
next
  case False
  show ?thesis
  proof (cases "created_product_of createJson")
    case None
    with False assms show ?thesis by (auto simp: after_product_create_def)
  next
    case (Some created)
    show ?thesis
    proof (cases "if_truthy (cp_id created)")
      case None
      with Some False assms show ?thesis by (auto simp: after_product_create_def)
    next
      case (Some nid)
      with \<open>created_product_of createJson = Some created\<close> False assms
      have "then_do (replicate_variants g base dup created nid s) (\<lambda>_ s'. (Inr nid, s', [])) = (r, s', evs)"
        by (simp add: after_product_create_def)
      then show ?thesis
        by (rule then_do_answers) (erule replicate_variants_answers, simp)
    qed
  qed
qed

lemma create_duplicate_answers:
  assumes "create_duplicate g base idx dup s = (r, s', evs)"
  shows "\<forall>req a. Call req a \<in> set evs \<longrightarrow> (\<exists>st. a = fst (g req st))"
  using assms [unfolded create_duplicate_def]
  by (rule then_do_answers) (erule call_answers, erule after_product_create_answers)

lemma duplicate_loop_answers:
  "duplicate_loop g base idx dups ids s = (r, s', evs) \<Longrightarrow>
   \<forall>req a. Call req a \<in> set evs \<longrightarrow> (\<exists>st. a = fst (g req st))"
proof (induction dups arbitrary: idx ids s r s' evs)
  case Nil
  then show ?case by simp
next
  case (Cons dup dups)
  from Cons.prems
  have "then_do (create_duplicate g base idx dup s)
          (\<lambda>nid s1. duplicate_loop g base (Suc idx) dups (ids @ [nid]) s1) = (r, s', evs)"
    by simp
  then show ?case
    by (rule then_do_answers) (erule create_duplicate_answers, erule Cons.IH)
qed

lemma run_answers:
  assumes "run (Some g) p s = (r, s', evs)"
  shows "\<forall>req a. Call req a \<in> set evs \<longrightarrow> (\<exists>st. a = fst (g req st))"
proof (cases "if_truthy (sourceProductId p)")
  case None
  with assms show ?thesis by (simp add: run_def)
next
  case (Some ident)
  show ?thesis
  proof (cases "is_product_gid (normalizeGid ident) \<and> (\<exists>dups. duplicates p = Some dups \<and> dups \<noteq> [])")
    case False
    with Some assms show ?thesis
      by (auto simp: run_def split: option.splits if_splits)
  next
    case True
    then obtain dups where d: "duplicates p = Some dups" "dups \<noteq> []"
      and gid: "is_product_gid (normalizeGid ident)" by auto
    from Some gid d assms
    have "then_do (call g (BaseProduct (normalizeGid ident)) s) (duplicate_all g dups) = (r, s', evs)"
      by (simp add: run_def)
    then show ?thesis
    proof (rule then_do_answers)
      fix a s1 evs1
      assume "call g (BaseProduct (normalizeGid ident)) s = (a, s1, evs1)"
      then show "\<forall>req b. Call req b \<in> set evs1 \<longrightarrow> (\<exists>st. b = fst (g req st))"
        by (rule call_answers)
    next
      fix a s1 r2 s2 evs2
      assume da: "duplicate_all g dups a s1 = (r2, s2, evs2)"
      show "\<forall>req b. Call req b \<in> set evs2 \<longrightarrow> (\<exists>st. b = fst (g req st))"
      proof (cases "nullish (bj_product (as_base a)) (bj_data_product (as_base a))")
        case None
        with da show ?thesis by (simp add: duplicate_all_def)
      next
        case (Some base)
        with da have "then_do (duplicate_loop g base 0 dups [] s1)
          (\<lambda>newProductIds s'.
             (Inr \<lparr>productIds = newProductIds, count = length newProductIds\<rparr>, s', [])) = (r2, s2, evs2)"
          by (simp add: duplicate_all_def)
        then show ?thesis
          by (rule then_do_answers) (erule duplicate_loop_answers, simp)
      qed
    qed
  qed
qed

section \<open>A successful run\<close>

lemma thrown_reports: "reports_no_errors a \<Longrightarrow> Inl e = a \<Longrightarrow> False"
  by (auto simp: reports_no_errors_def)

lemma update_price_quiet:
  assumes step: "update_price g pid vid pr failed s = (r, s', evs)"
    and ok: "\<forall>req a. Call req a \<in> set evs \<longrightarrow> reports_no_errors a"
  shows "r = Inr ()"
  using then_do_result [OF step [unfolded update_price_def]] ok
  by (auto dest!: call_result dest: thrown_reports split: if_splits)

lemma override_first_created_quiet:
  assumes "override_first_created g dup pid vcJson s = (r, s', evs)"
    and "\<forall>req a. Call req a \<in> set evs \<longrightarrow> reports_no_errors a"
  shows "r = Inr ()"
  using assms
  by (auto simp: override_first_created_def split: option.splits dest: update_price_quiet)

lemma override_standalone_quiet:
  assumes "override_standalone g dup created pid s = (r, s', evs)"
    and "\<forall>req a. Call req a \<in> set evs \<longrightarrow> reports_no_errors a"
  shows "r = Inr ()"
  using assms
  by (auto simp: override_standalone_def split: option.splits dest: update_price_quiet)

lemma after_bulk_create_quiet:
  assumes "after_bulk_create g dup pid vcJson s = (r, s', evs)"
    and "\<forall>req a. Call req a \<in> set evs \<longrightarrow> reports_no_errors a"
  shows "r = Inr ()"
  using assms
  by (auto simp: after_bulk_create_def split: if_splits dest: override_first_created_quiet)

lemma replicate_variants_quiet:
  assumes step: "replicate_variants g base dup created pid s = (r, s', evs)"
    and ok: "\<forall>req a. Call req a \<in> set evs \<longrightarrow> reports_no_errors a"
  shows "r = Inr ()"
proof (cases "0 < length (baseVariants base)")
  case True
  with step have "then_do (call g (CreateVariants pid (variantsInput (baseVariants base) created)
                           ''REMOVE_STANDALONE_VARIANT'') s) (after_bulk_create g dup pid) = (r, s', evs)"
    by (simp add: replicate_variants_def)
  from then_do_result [OF this] show ?thesis
  proof (elim disjE exE conjE)
    fix e
    assume "call g (CreateVariants pid (variantsInput (baseVariants base) created)
                           ''REMOVE_STANDALONE_VARIANT'') s = (Inl e, s', evs)"
    from call_result [OF this] ok show ?thesis by (auto dest: thrown_reports)
  next
    fix vcJson s1 evs1 evs2
    assume "after_bulk_create g dup pid vcJson s1 = (r, s', evs2)" "evs = evs1 @ evs2"
    with ok show ?thesis by (auto dest: after_bulk_create_quiet)
  qed
next
  case False
  with step ok show ?thesis
    by (auto simp: replicate_variants_def dest: override_standalone_quiet)
qed

lemma create_duplicate_quiet:
  assumes step: "create_duplicate g base idx dup s = (r, s', evs)"
    and ok: "\<forall>req a. Call req a \<in> set evs \<longrightarrow> reports_no_errors a"
    and cid: "\<forall>c \<in> set (creations evs). created_id (snd c) \<noteq> None"
  shows "\<exists>nid. r = Inr nid"
proof -
  let ?req = "CreateProduct (productInput base dup) (media_argument base dup)"
  from then_do_result [OF step [unfolded create_duplicate_def]] show ?thesis
  proof (elim disjE exE conjE)
    fix e
    assume "call g ?req s = (Inl e, s', evs)"
    from call_result [OF this] ok show ?thesis by (auto dest: thrown_reports)
  next
    fix createJson s1 evs1 evs2
    assume c: "call g ?req s = (Inr createJson, s1, evs1)"
      and a: "after_product_create g base idx dup createJson s1 = (r, s', evs2)"
      and evs: "evs = evs1 @ evs2"
    from call_result [OF c] have e1: "evs1 = [Call ?req (Inr createJson)]" by simp
    with ok evs have "reports_no_errors (Inr createJson)" by simp
    then have noerr: "\<not> has_errors (userErrors_of cpl_userErrors (as_create createJson))"
      by (simp add: reports_no_errors_def)
    from e1 evs cid have "created_id (Inr createJson) \<noteq> None" by simp
    then obtain nid where "created_id (Inr createJson) = Some nid" by auto
    from created_id_accepted [OF this] obtain created
      where cr: "created_product_of createJson = Some created" "if_truthy (cp_id created) = Some nid"
      by blast
    with noerr a
    have "then_do (replicate_variants g base dup created nid s1) (\<lambda>_ s'. (Inr nid, s', [])) = (r, s', evs2)"
      by (simp add: after_product_create_def)
    from then_do_result [OF this] show ?thesis
    proof (elim disjE exE conjE)
      fix e
      assume "replicate_variants g base dup created nid s1 = (Inl e, s', evs2)"
      from replicate_variants_quiet [OF this] ok evs show ?thesis by simp
    next
      fix u s2 evs3 evs4
      assume "(Inr nid, s2, []) = (r, s', evs4)"
      then show ?thesis by auto
    qed
  qed
qed

lemma duplicate_loop_quiet:
  "duplicate_loop g base idx dups ids s = (r, s', evs) \<Longrightarrow>
   \<forall>req a. Call req a \<in> set evs \<longrightarrow> reports_no_errors a \<Longrightarrow>
   \<forall>c \<in> set (creations evs). created_id (snd c) \<noteq> None \<Longrightarrow>
   \<exists>ids'. r = Inr ids'"
proof (induction dups arbitrary: idx ids s r s' evs)
  case Nil
  then show ?case by auto
next
  case (Cons dup dups)
  from Cons.prems(1)
  have "then_do (create_duplicate g base idx dup s)
          (\<lambda>nid s1. duplicate_loop g base (Suc idx) dups (ids @ [nid]) s1) = (r, s', evs)"
    by simp
  from then_do_result [OF this] show ?case
  proof (elim disjE exE conjE)
    fix e
    assume "create_duplicate g base idx dup s = (Inl e, s', evs)"
    from create_duplicate_quiet [OF this Cons.prems(2) Cons.prems(3)] show ?thesis by simp
  next
    fix nid s1 evs1 evs2
    assume rest: "duplicate_loop g base (Suc idx) dups (ids @ [nid]) s1 = (r, s', evs2)"
      and evs: "evs = evs1 @ evs2"
    from Cons.prems(2) evs have ok2: "\<forall>req a. Call req a \<in> set evs2 \<longrightarrow> reports_no_errors a"
      by simp
    from Cons.prems(3) evs have cid2: "\<forall>c \<in> set (creations evs2). created_id (snd c) \<noteq> None"
      by (simp add: creations_append)
    from Cons.IH [OF rest ok2 cid2] show ?thesis .
  qed
qed

lemma creations_in_events:
  "c \<in> set (creations evs) \<Longrightarrow>
   Call (CreateProduct (fst (fst c)) (snd (fst c))) (snd c) \<in> set evs"
  by (induction evs rule: creations.induct) auto

text \<open>
  Claim C1, amended. For a non-empty list of \<open>N\<close> duplicates and a source product that
  resolves, when no remote call that the run makes reports errors and every answer to a
  product creation of the run carries a product id, the run returns: its \<open>productIds\<close> are
  \<open>N\<close> ids and its \<open>count\<close> is \<open>N\<close>; the creations were requested one per duplicate in the
  order of the input, and the ids are those that their answers carried, in the same order.
\<close>

theorem run_returns_one_id_per_duplicate:
  assumes src: "source_product g p s = Some (base, s1)"
    and dups: "duplicates p = Some dups" "dups \<noteq> []"
    and run: "run (Some g) p s = (r, s', evs)"
    and ok: "\<forall>req a. Call req a \<in> set evs \<longrightarrow> reports_no_errors a"
    and cid: "\<forall>c \<in> set (creations evs). created_id (snd c) \<noteq> None"
  shows "\<exists>ids.
           r = Inr \<lparr>productIds = ids, count = length dups\<rparr>
         \<and> length ids = length dups
         \<and> map fst (creations evs) = map (\<lambda>d. (productInput base d, media_argument base d)) dups
         \<and> map (created_id \<circ> snd) (creations evs) = map Some ids"
proof -
  obtain r1 s2 evs1 where loop: "duplicate_loop g base 0 dups [] s1 = (r1, s2, evs1)"
    by (cases "duplicate_loop g base 0 dups [] s1")
  from run_resolved [OF src dups loop] run obtain ident baseJson
    where r: "r = (case r1 of Inl e \<Rightarrow> Inl e | Inr ids \<Rightarrow> Inr \<lparr>productIds = ids, count = length ids\<rparr>)"
      and evs: "evs = Call (BaseProduct ident) (Inr baseJson) # evs1"
    by auto
  from ok evs have ok1: "\<forall>req a. Call req a \<in> set evs1 \<longrightarrow> reports_no_errors a" by simp
  from cid evs have cid1: "\<forall>c \<in> set (creations evs1). created_id (snd c) \<noteq> None" by simp
  from duplicate_loop_quiet [OF loop ok1 cid1] obtain ids where r1: "r1 = Inr ids" by blast
  from duplicate_loop_ids [OF loop [unfolded r1]]
  have len: "length (creations evs1) = length dups"
    and ids: "map Some ids = map (created_id \<circ> snd) (creations evs1)" by auto
  from ids len have n: "length ids = length dups"
    by (metis length_map)
  from duplicate_loop_creations [OF loop] len
  have reqs: "map fst (creations evs1) = map (\<lambda>d. (productInput base d, media_argument base d)) dups"
    by simp
  from r r1 n have "r = Inr \<lparr>productIds = ids, count = length dups\<rparr>" by simp
  with n reqs ids evs show ?thesis by simp
qed

text \<open>
  The theorem at two duplicates, the second with overrides, on the sample remote: every
  call of the run is answered by the remote, which reports no error and names a product.
\<close>

theorem run_returns_one_id_per_duplicate_witness:
  "source_product (sample_remote created_answer variants_answer)
      (sample_params [no_overrides, spaced_title]) 0 = Some (sample_base, 0)
   \<and> (\<exists>ids s' evs.
         run (Some (sample_remote created_answer variants_answer))
             (sample_params [no_overrides, spaced_title]) 0
           = (Inr \<lparr>productIds = ids, count = 2\<rparr>, s', evs)
       \<and> length ids = 2
       \<and> map fst (creations evs)
           = [(productInput sample_base no_overrides, media_argument sample_base no_overrides),
              (productInput sample_base spaced_title, media_argument sample_base spaced_title)]
       \<and> map (created_id \<circ> snd) (creations evs) = map Some ids)"
proof -
  let ?g = "sample_remote created_answer variants_answer"
  let ?p = "sample_params [no_overrides, spaced_title]"
  have src: "source_product ?g ?p 0 = Some (sample_base, 0)"
    by (rule sample_source)
  have dups: "duplicates ?p = Some [no_overrides, spaced_title]" "[no_overrides, spaced_title] \<noteq> []"
    by (simp_all add: sample_params_def)
  obtain r s' evs where run: "run (Some ?g) ?p 0 = (r, s', evs)"
    by (cases "run (Some ?g) ?p 0")
  from run_answers [OF run] sample_reports_no_errors
  have ok: "\<forall>req a. Call req a \<in> set evs \<longrightarrow> reports_no_errors a"
    by metis
  have cid: "\<forall>c \<in> set (creations evs). created_id (snd c) \<noteq> None"
  proof
    fix c
    assume c: "c \<in> set (creations evs)"
    from creations_in_events [OF c] obtain pin media
      where "Call (CreateProduct pin media) (snd c) \<in> set evs" by blast
    with run_answers [OF run] obtain st where "snd c = fst (?g (CreateProduct pin media) st)" by blast
    with sample_created_ids show "created_id (snd c) \<noteq> None" by metis
  qed
  from run_returns_one_id_per_duplicate [OF src dups run ok cid] run
  have "\<exists>ids s' evs.
         run (Some ?g) ?p 0 = (Inr \<lparr>productIds = ids, count = 2\<rparr>, s', evs)
       \<and> length ids = 2
       \<and> map fst (creations evs)
           = [(productInput sample_base no_overrides, media_argument sample_base no_overrides),
              (productInput sample_base spaced_title, media_argument sample_base spaced_title)]
       \<and> map (created_id \<circ> snd) (creations evs) = map Some ids"
    by (auto simp: numeral_2_eq_2)
  with src show ?thesis by (rule conjI)
qed

text \<open>
  The claim as stated, without the product id: a remote that never reports an error but
  answers a creation with no product makes the run throw.
\<close>

theorem run_without_product_id_counterexample:
  "(\<forall>req st. reports_no_errors (fst (sample_remote (\<lambda>n. empty_answer) variants_answer req st)))
   \<and> source_product (sample_remote (\<lambda>n. empty_answer) variants_answer)
        (sample_params [no_overrides]) 0 = Some (sample_base, 0)
   \<and> duplicates (sample_params [no_overrides]) = Some [no_overrides]
   \<and> fst (run (Some (sample_remote (\<lambda>n. empty_answer) variants_answer))
             (sample_params [no_overrides]) 0)
       = Inl (Error ''productCreate returned no product id'')"
proof -
  let ?g = "sample_remote (\<lambda>n. empty_answer) variants_answer"
  have ok: "\<forall>req st. reports_no_errors (fst (?g req st))"
    by (simp add: sample_remote_def reports_no_errors_def empty_answer_def variants_answer_def
        json_defs split: request.splits)
  have loop: "duplicate_loop ?g sample_base 0 [no_overrides] [] 0
      = (Inl (Error ''productCreate returned no product id''), 1,
         [Call (CreateProduct (productInput sample_base no_overrides)
                  (media_argument sample_base no_overrides)) empty_answer])"
    by (simp add: create_duplicate_def call_def sample_remote_def then_do_def
        after_product_create_def empty_answer_def json_defs)
  from run_resolved [OF sample_source _ _ loop, of "[no_overrides]"]
  have "fst (run (Some ?g) (sample_params [no_overrides]) 0)
       = Inl (Error ''productCreate returned no product id'')"
    by (auto simp: sample_params_def)
  with ok sample_source show ?thesis by (simp add: sample_params_def)
qed

end
